theory Spec2Isabelle
  imports Main "HOL-Library.Char_ord" "HOL-Library.List_Lexorder"
begin

section \<open>Data model\<close>

text \<open>
  The module \<^verbatim>\<open>starter/starter/ml/data.py\<close> prepares a pandas DataFrame for a
  classifier. A cell of the table is an integer, as \<^verbatim>\<open>pd.read_csv\<close> reads a
  column of 64-bit integers, or a string (fractional values, NaN and None are outside
  this model). A table is its list of column names and its list of
  rows; a DataFrame is rectangular and, as \<^verbatim>\<open>pd.read_csv\<close> produces it, has
  distinct column names: \<open>wf_table\<close>.
\<close>

datatype cell = Num int | Str string

datatype error = KeyError | AttributeError | ValueError | TypeError | IndexError

record table =
  columns :: "string list"
  rows :: "cell list list"

definition wf_table :: "table \<Rightarrow> bool" where
  "wf_table X \<longleftrightarrow>
     distinct (columns X) \<and> list_all (\<lambda>r. length r = length (columns X)) (rows X)"

text \<open>The categorical features of the census data, lines 6 to 15.\<close>

definition categorical_features :: "string list" where
  "categorical_features =
     [''workclass'', ''education'', ''marital-status'', ''occupation'',
      ''relationship'', ''race'', ''sex'', ''native-country'']"

section \<open>The pandas operations the module calls\<close>

fun index_of :: "'a \<Rightarrow> 'a list \<Rightarrow> nat option" where
  "index_of x [] = None"
| "index_of x (y # ys) =
     (if x = y then Some 0
      else (case index_of x ys of None \<Rightarrow> None | Some i \<Rightarrow> Some (Suc i)))"

text \<open>\<^verbatim>\<open>X[label]\<close>: the column named \<open>label\<close>, KeyError when there is none.\<close>

definition getitem :: "table \<Rightarrow> string \<Rightarrow> error + cell list" where
  "getitem X label =
     (case index_of label (columns X) of
        None \<Rightarrow> Inl KeyError
      | Some i \<Rightarrow> Inr (map (\<lambda>r. r ! i) (rows X)))"

text \<open>
  \<^verbatim>\<open>X.drop(names, axis=1)\<close>: a new table without the named columns, the others in
  their original order; KeyError when a name is not a column.
\<close>

definition keep_cells :: "string list \<Rightarrow> string list \<Rightarrow> cell list \<Rightarrow> cell list" where
  "keep_cells names cols r = map snd (filter (\<lambda>(c, v). c \<notin> set names) (zip cols r))"

definition drop_columns :: "table \<Rightarrow> string list \<Rightarrow> error + table" where
  "drop_columns X names =
     (if list_all (\<lambda>n. n \<in> set (columns X)) names
      then Inr \<lparr>columns = filter (\<lambda>c. c \<notin> set names) (columns X),
                rows = map (keep_cells names (columns X)) (rows X)\<rparr>
      else Inl KeyError)"

fun sequence :: "('e + 'a) list \<Rightarrow> 'e + 'a list" where
  "sequence [] = Inr []"
| "sequence (x # xs) =
     (case x of
        Inl e \<Rightarrow> Inl e
      | Inr v \<Rightarrow> (case sequence xs of Inl e \<Rightarrow> Inl e | Inr vs \<Rightarrow> Inr (v # vs)))"

text \<open>
  \<^verbatim>\<open>X[names].values\<close>: the two-dimensional array of the named columns, in the order
  of \<open>names\<close>; KeyError when a name is not a column.
\<close>

definition getitem_values :: "table \<Rightarrow> string list \<Rightarrow> error + cell list list" where
  "getitem_values X names =
     (case sequence (map (\<lambda>n. case index_of n (columns X) of
                                 None \<Rightarrow> Inl KeyError | Some i \<Rightarrow> Inr i) names) of
        Inl e \<Rightarrow> Inl e
      | Inr idx \<Rightarrow> Inr (map (\<lambda>r. map (\<lambda>i. r ! i) idx) (rows X)))"

text \<open>\<^verbatim>\<open>Series.unique()\<close>: the distinct values in the order of first appearance.\<close>

definition unique :: "'a list \<Rightarrow> 'a list" where
  "unique xs = foldl (\<lambda>seen x. if x \<in> set seen then seen else seen @ [x]) [] xs"

section \<open>The scikit-learn transformers the module calls\<close>

text \<open>
  The fitted state of \<^verbatim>\<open>OneHotEncoder(handle_unknown="ignore", sparse_output=False)\<close>
  is its \<^verbatim>\<open>categories_\<close>: for every feature the sorted distinct values seen by
  \<^verbatim>\<open>fit\<close>. The fitted state of \<^verbatim>\<open>LabelBinarizer()\<close> is its sorted
  \<^verbatim>\<open>classes_\<close>. Both follow the library's documented behaviour and section 3 of the
  specification. Sorting needs values of one kind: a column that mixes integers and
  strings makes the library raise (reported here as TypeError). An array is numeric when
  all its cells are integers and has the object dtype otherwise; the categories fitted
  on an array with a string have the object dtype.
\<close>

type_synonym one_hot_encoder = "cell list list"

type_synonym label_binarizer = "cell list"

fun is_num :: "cell \<Rightarrow> bool" where
  "is_num (Num _) = True"
| "is_num (Str _) = False"

fun is_str :: "cell \<Rightarrow> bool" where
  "is_str (Str _) = True"
| "is_str (Num _) = False"

fun num_of :: "cell \<Rightarrow> int" where
  "num_of (Num i) = i"
| "num_of (Str _) = 0"

fun str_of :: "cell \<Rightarrow> string" where
  "str_of (Str s) = s"
| "str_of (Num _) = []"

definition uniform :: "cell list \<Rightarrow> bool" where
  "uniform xs \<longleftrightarrow> list_all is_num xs \<or> list_all is_str xs"

definition numeric_array :: "cell list list \<Rightarrow> bool" where
  "numeric_array A = list_all (list_all is_num) A"

definition object_categories :: "one_hot_encoder \<Rightarrow> bool" where
  "object_categories cats = list_ex (list_ex is_str) cats"

text \<open>\<^verbatim>\<open>np.unique\<close> as the transformers use it: sorted distinct values.\<close>

definition np_unique :: "cell list \<Rightarrow> error + cell list" where
  "np_unique xs =
     (if list_all is_num xs then Inr (map Num (sort (remdups (map num_of xs))))
      else if list_all is_str xs then Inr (map Str (sort (remdups (map str_of xs))))
      else Inl TypeError)"

text \<open>
  \<^verbatim>\<open>check_array\<close>: a two-dimensional array needs at least one sample and at least
  one feature.
\<close>

definition check_array :: "cell list list \<Rightarrow> error + nat" where
  "check_array A =
     (case A of
        [] \<Rightarrow> Inl ValueError
      | r # _ \<Rightarrow> if r = [] then Inl ValueError else Inr (length r))"

definition one_hot :: "cell list \<Rightarrow> cell \<Rightarrow> cell list" where
  "one_hot cats v = map (\<lambda>c. if c = v then Num 1 else Num 0) cats"

definition encode_row :: "one_hot_encoder \<Rightarrow> cell list \<Rightarrow> cell list" where
  "encode_row cats r = concat (map (\<lambda>(cs, v). one_hot cs v) (zip cats r))"

definition ohe_fit :: "cell list list \<Rightarrow> error + one_hot_encoder" where
  "ohe_fit A =
     (case check_array A of
        Inl e \<Rightarrow> Inl e
      | Inr n \<Rightarrow> sequence (map (\<lambda>i. np_unique (map (\<lambda>r. r ! i) A)) [0..<n]))"

text \<open>
  \<^verbatim>\<open>encoder.transform\<close>: the number of features must be the fitted one. The
  values of a numeric array are compared with the categories numerically, which raises
  TypeError on categories of the object dtype. Otherwise a value that is not among the
  fitted categories of its feature is ignored, which leaves its indicator block zero.
\<close>

definition ohe_transform :: "one_hot_encoder \<Rightarrow> cell list list \<Rightarrow> error + cell list list" where
  "ohe_transform cats A =
     (case check_array A of
        Inl e \<Rightarrow> Inl e
      | Inr n \<Rightarrow> if n \<noteq> length cats then Inl ValueError
                 else if numeric_array A \<and> object_categories cats then Inl TypeError
                 else Inr (map (encode_row cats) A))"

definition ohe_fit_transform ::
  "cell list list \<Rightarrow> error + one_hot_encoder \<times> cell list list" where
  "ohe_fit_transform A =
     (case ohe_fit A of
        Inl e \<Rightarrow> Inl e
      | Inr cats \<Rightarrow> (case ohe_transform cats A of
                      Inl e \<Rightarrow> Inl e
                    | Inr B \<Rightarrow> Inr (cats, B)))"

text \<open>
  \<^verbatim>\<open>label_binarize\<close>: the target is binary when it holds at most two distinct
  values and multiclass otherwise. A binary target gives one column (all zero when only
  one class was fitted, the indicator of the last class when two were); a multiclass
  target, or a binary one against three or more fitted classes, gives one indicator
  column per class. A label outside the fitted classes gives a zero row; looking
  integer labels up among classes that hold a string raises ValueError.
\<close>

datatype target_type = Binary | Multiclass

definition type_of_target :: "cell list \<Rightarrow> target_type" where
  "type_of_target y = (if length (remdups y) > 2 then Multiclass else Binary)"

definition label_binarize :: "cell list \<Rightarrow> label_binarizer \<Rightarrow> error + int list list" where
  "label_binarize y classes =
     (if y = [] then Inl ValueError
      else if \<not> uniform y then Inl TypeError
      else let y_type = type_of_target y; n_classes = length classes in
        if y_type = Binary \<and> n_classes = 1 then Inr (map (\<lambda>_. [0]) y)
        else if list_all is_num y \<and> list_ex is_str classes then Inl ValueError
        else let y_type = (if y_type = Binary \<and> n_classes \<ge> 3 then Multiclass else y_type);
                 Y = map (\<lambda>v. map (\<lambda>c. if c = v then 1 else 0) classes) y in
          if y_type = Binary
          then (if classes = [] then Inl IndexError else Inr (map (\<lambda>row. [last row]) Y))
          else Inr Y)"

definition lb_fit :: "cell list \<Rightarrow> error + label_binarizer" where
  "lb_fit y = (if y = [] then Inl ValueError else np_unique y)"

definition lb_transform :: "label_binarizer \<Rightarrow> cell list \<Rightarrow> error + int list list" where
  "lb_transform classes y = label_binarize y classes"

definition lb_fit_transform :: "cell list \<Rightarrow> error + label_binarizer \<times> int list list" where
  "lb_fit_transform y =
     (case lb_fit y of
        Inl e \<Rightarrow> Inl e
      | Inr classes \<Rightarrow> (case lb_transform classes y of
                         Inl e \<Rightarrow> Inl e
                       | Inr Y \<Rightarrow> Inr (classes, Y)))"

section \<open>process_data\<close>

text \<open>
  The label output \<open>y\<close> is a pandas Series while it holds the raw label column and a
  numpy array otherwise; only a Series has the attribute \<^verbatim>\<open>.values\<close>.
\<close>

datatype labels = Series "cell list" | Array "int list"

fun series_values :: "labels \<Rightarrow> error + cell list" where
  "series_values (Series xs) = Inr xs"
| "series_values (Array _) = Inl AttributeError"

fun ravel :: "int list list \<Rightarrow> labels" where
  "ravel Y = Array (concat Y)"

text \<open>Lines 60 to 64: split the label column off.\<close>

definition split_label :: "table \<Rightarrow> string option \<Rightarrow> error + labels \<times> table" where
  "split_label X label =
     (case label of
        Some l \<Rightarrow> (case getitem X l of
                     Inl e \<Rightarrow> Inl e
                   | Inr y \<Rightarrow> (case drop_columns X [l] of
                                 Inl e \<Rightarrow> Inl e
                               | Inr X' \<Rightarrow> Inr (Series y, X')))
      | None \<Rightarrow> Inr (Array [], X))"

text \<open>
  Lines 76 to 80: \<^verbatim>\<open>lb.transform\<close> is looked up first (AttributeError on None), then
  \<^verbatim>\<open>y.values\<close> (AttributeError on an array); an AttributeError leaves \<open>y\<close> as it
  is, any other error propagates.
\<close>

definition transform_labels :: "label_binarizer option \<Rightarrow> labels \<Rightarrow> error + labels" where
  "transform_labels lb y =
     (case (case lb of
              None \<Rightarrow> Inl AttributeError
            | Some classes \<Rightarrow> (case series_values y of
                                Inl e \<Rightarrow> Inl e
                              | Inr v \<Rightarrow> lb_transform classes v)) of
        Inl AttributeError \<Rightarrow> Inr y
      | Inl e \<Rightarrow> Inl e
      | Inr Y \<Rightarrow> Inr (ravel Y))"

text \<open>
  The conversion of a 64-bit integer to float64: the nearest number with 53 significant
  bits, the even one of two equally near. It is again an integer.
\<close>

function excess_bits :: "int \<Rightarrow> nat" where
  "excess_bits a = (if a < 2 ^ 53 then 0 else Suc (excess_bits (a div 2)))"
  by pat_completeness auto
termination
  by (relation "measure nat") auto

declare excess_bits.simps [simp del]

definition float64_of_int :: "int \<Rightarrow> int" where
  "float64_of_int i =
     (let a = \<bar>i\<bar>; e = excess_bits a; q = a div 2 ^ e; r = a mod 2 ^ e;
          m = (if 2 * r > 2 ^ e \<or> (2 * r = 2 ^ e \<and> odd q) then q + 1 else q) * 2 ^ e
      in if i < 0 then - m else m)"

fun float64_cell :: "cell \<Rightarrow> cell" where
  "float64_cell (Num i) = Num (float64_of_int i)"
| "float64_cell (Str s) = Str s"

text \<open>
  \<^verbatim>\<open>np.concatenate([X_continuous, X_categorical], axis=1)\<close>: the rows side by
  side. The result of numeric arrays, one of them of float64 as the indicator array is,
  is a float64 array; with a string among the cells it is an object array, which holds
  the cells as they are.
\<close>

definition concatenate :: "cell list list \<Rightarrow> cell list list \<Rightarrow> error + cell list list" where
  "concatenate A B =
     (if length A = length B
      then (let M = map (\<lambda>(a, b). a @ b) (zip A B)
            in Inr (if numeric_array M then map (map float64_cell) M else M))
      else Inl ValueError)"

text \<open>
  Lines 69 to 80: in training mode a new encoder and a new binarizer are fitted and
  applied, otherwise the ones passed in are applied.
\<close>

definition fit_or_transform ::
  "bool \<Rightarrow> one_hot_encoder option \<Rightarrow> label_binarizer option \<Rightarrow> cell list list \<Rightarrow> labels \<Rightarrow>
   error + cell list list \<times> labels \<times> one_hot_encoder option \<times> label_binarizer option" where
  "fit_or_transform training encoder lb X_categorical y =
     (if training
      then (case ohe_fit_transform X_categorical of
              Inl e \<Rightarrow> Inl e
            | Inr (encoder, X_categorical) \<Rightarrow>
           (case series_values y of
              Inl e \<Rightarrow> Inl e
            | Inr v \<Rightarrow>
           (case lb_fit_transform v of
              Inl e \<Rightarrow> Inl e
            | Inr (lb, Y) \<Rightarrow> Inr (X_categorical, ravel Y, Some encoder, Some lb))))
      else (case encoder of
              None \<Rightarrow> Inl AttributeError
            | Some cats \<Rightarrow>
           (case ohe_transform cats X_categorical of
              Inl e \<Rightarrow> Inl e
            | Inr X_categorical \<Rightarrow>
           (case transform_labels lb y of
              Inl e \<Rightarrow> Inl e
            | Inr y \<Rightarrow> Inr (X_categorical, y, encoder, lb)))))"

text \<open>The function, lines 18 to 82.\<close>

definition process_data ::
  "table \<Rightarrow> string list \<Rightarrow> string option \<Rightarrow> bool \<Rightarrow> one_hot_encoder option \<Rightarrow>
   label_binarizer option \<Rightarrow>
   error + cell list list \<times> labels \<times> one_hot_encoder option \<times> label_binarizer option" where
  "process_data X cat_features label training encoder lb =
     (case split_label X label of
        Inl e \<Rightarrow> Inl e
      | Inr (y, X) \<Rightarrow>
     (case getitem_values X cat_features of
        Inl e \<Rightarrow> Inl e
      | Inr X_categorical \<Rightarrow>
     (case drop_columns X cat_features of
        Inl e \<Rightarrow> Inl e
      | Inr X_continuous \<Rightarrow>
     (case fit_or_transform training encoder lb X_categorical y of
        Inl e \<Rightarrow> Inl e
      | Inr (X_categorical, y, encoder, lb) \<Rightarrow>
     (case concatenate (rows X_continuous) X_categorical of
        Inl e \<Rightarrow> Inl e
      | Inr X \<Rightarrow> Inr (X, y, encoder, lb))))))"

section \<open>slide_performance\<close>

text \<open>
  The model object and \<^verbatim>\<open>compute_model_metrics\<close> (imported from the module
  \<^verbatim>\<open>model\<close>) are collaborators: a prediction function, a metrics function giving
  precision, recall and F-beta, and the text Python's \<^verbatim>\<open>format\<close> gives a metric.
  Each of the two functions may raise.
\<close>

record ('p, 'm) collaborators =
  predict :: "cell list list \<Rightarrow> error + 'p"
  compute_model_metrics :: "labels \<Rightarrow> 'p \<Rightarrow> error + 'm \<times> 'm \<times> 'm"
  format_metric :: "'m \<Rightarrow> string"

text \<open>The text of a table value under \<^verbatim>\<open>format\<close>: a string as it is, an integer in decimal.\<close>

fun string_of_nat :: "nat \<Rightarrow> string" where
  "string_of_nat n =
     (if n < 10 then [char_of (48 + n)]
      else string_of_nat (n div 10) @ [char_of (48 + n mod 10)])"

definition string_of_int :: "int \<Rightarrow> string" where
  "string_of_int i =
     (if i < 0 then CHR ''-'' # string_of_nat (nat (- i)) else string_of_nat (nat i))"

fun format_value :: "cell \<Rightarrow> string" where
  "format_value (Str s) = s"
| "format_value (Num i) = string_of_int i"

text \<open>The line of lines 118 and 119.\<close>

definition format_line :: "cell \<Rightarrow> string \<Rightarrow> string \<Rightarrow> string \<Rightarrow> string \<Rightarrow> string" where
  "format_line v cat precision recall fbeta =
     ''Feature '' @ format_value v @ '' of the Categorical '' @ cat @ '': Precision:''
       @ precision @ '' | Recall:'' @ recall @ '' | Fbeta:'' @ fbeta @ [CHR 0x0A]"

text \<open>\<^verbatim>\<open>data[data[categorical] == value]\<close>: the rows that hold \<open>value\<close> in the column.\<close>

definition select_rows :: "table \<Rightarrow> string \<Rightarrow> cell \<Rightarrow> error + table" where
  "select_rows data categorical v =
     (case index_of categorical (columns data) of
        None \<Rightarrow> Inl KeyError
      | Some i \<Rightarrow> Inr \<lparr>columns = columns data, rows = filter (\<lambda>r. r ! i = v) (rows data)\<rparr>)"

text \<open>Lines 113 to 119: the line of one value of one categorical feature.\<close>

definition slice_line ::
  "('p, 'm) collaborators \<Rightarrow> table \<Rightarrow> one_hot_encoder option \<Rightarrow> label_binarizer option \<Rightarrow>
   string list \<Rightarrow> string \<Rightarrow> cell \<Rightarrow> error + string" where
  "slice_line model data encoder lb cat_features categorical v =
     (case select_rows data categorical v of
        Inl e \<Rightarrow> Inl e
      | Inr data_preformance \<Rightarrow>
     (case process_data data_preformance cat_features (Some ''salary'') False encoder lb of
        Inl e \<Rightarrow> Inl e
      | Inr (X, y, _, _) \<Rightarrow>
     (case predict model X of
        Inl e \<Rightarrow> Inl e
      | Inr y_pred \<Rightarrow>
     (case compute_model_metrics model y y_pred of
        Inl e \<Rightarrow> Inl e
      | Inr (precision, recall, fbeta) \<Rightarrow>
          Inr (format_line v categorical (format_metric model precision)
                 (format_metric model recall) (format_metric model fbeta))))))"

text \<open>
  The report file is the text it holds. Opening it with mode \<^verbatim>\<open>'w'\<close> empties it
  (mode \<^verbatim>\<open>'a'\<close> would keep the text), \<^verbatim>\<open>f.write\<close> appends to it.
\<close>

definition open_file :: "char \<Rightarrow> string \<Rightarrow> string" where
  "open_file mode old = (if mode = CHR ''w'' then [] else old)"

definition file_write :: "string \<Rightarrow> string \<Rightarrow> string" where
  "file_write f line = f @ line"

text \<open>
  The two loops thread the text written to the file so far; an error leaves the loops
  with what was written before it.
\<close>

fun slice_values ::
  "('p, 'm) collaborators \<Rightarrow> table \<Rightarrow> one_hot_encoder option \<Rightarrow> label_binarizer option \<Rightarrow>
   string list \<Rightarrow> string \<Rightarrow> cell list \<Rightarrow> string \<Rightarrow> (error + unit) \<times> string" where
  "slice_values model data encoder lb cat_features categorical [] f = (Inr (), f)"
| "slice_values model data encoder lb cat_features categorical (v # vs) f =
     (case slice_line model data encoder lb cat_features categorical v of
        Inl e \<Rightarrow> (Inl e, f)
      | Inr line \<Rightarrow>
          slice_values model data encoder lb cat_features categorical vs (file_write f line))"

fun slice_features ::
  "('p, 'm) collaborators \<Rightarrow> table \<Rightarrow> one_hot_encoder option \<Rightarrow> label_binarizer option \<Rightarrow>
   string list \<Rightarrow> string list \<Rightarrow> string \<Rightarrow> (error + unit) \<times> string" where
  "slice_features model data encoder lb cat_features [] f = (Inr (), f)"
| "slice_features model data encoder lb cat_features (categorical # rest) f =
     (case getitem data categorical of
        Inl e \<Rightarrow> (Inl e, f)
      | Inr col \<Rightarrow>
     (case slice_values model data encoder lb cat_features categorical (unique col) f of
        (Inl e, f) \<Rightarrow> (Inl e, f)
      | (Inr _, f) \<Rightarrow> slice_features model data encoder lb cat_features rest f))"

text \<open>
  Lines 98 to 121. The last argument is the text the file held before the call.
\<close>

definition slide_performance ::
  "('p, 'm) collaborators \<Rightarrow> table \<Rightarrow> one_hot_encoder option \<Rightarrow> label_binarizer option \<Rightarrow>
   string list \<Rightarrow> string \<Rightarrow> (error + unit) \<times> string" where
  "slide_performance model data encoder lb cat_features old =
     slice_features model data encoder lb cat_features cat_features
       (open_file CHR ''w'' old)"

section \<open>process_data on a store of DataFrame objects\<close>

text \<open>
  To speak of the caller's table, DataFrame objects live in a store, a reference is an
  index into it, and the argument \<open>X\<close> is a reference. \<^verbatim>\<open>X.drop(...)\<close> without
  \<^verbatim>\<open>inplace\<close> builds a new object and the assignment rebinds the local name;
  \<^verbatim>\<open>X[label]\<close> and \<^verbatim>\<open>X[names].values\<close> read; the transformers and
  \<^verbatim>\<open>np.concatenate\<close> build new arrays and do not write their arguments.
\<close>

type_synonym store = "table list"

definition store_drop :: "store \<Rightarrow> nat \<Rightarrow> string list \<Rightarrow> (error + nat) \<times> store" where
  "store_drop h X names =
     (case drop_columns (h ! X) names of
        Inl e \<Rightarrow> (Inl e, h)
      | Inr T \<Rightarrow> (Inr (length h), h @ [T]))"

definition store_split_label ::
  "store \<Rightarrow> nat \<Rightarrow> string option \<Rightarrow> (error + labels \<times> nat) \<times> store" where
  "store_split_label h X label =
     (case label of
        Some l \<Rightarrow> (case getitem (h ! X) l of
                     Inl e \<Rightarrow> (Inl e, h)
                   | Inr y \<Rightarrow> (case store_drop h X [l] of
                                 (Inl e, h) \<Rightarrow> (Inl e, h)
                               | (Inr X, h) \<Rightarrow> (Inr (Series y, X), h)))
      | None \<Rightarrow> (Inr (Array [], X), h))"

definition store_process_data ::
  "store \<Rightarrow> nat \<Rightarrow> string list \<Rightarrow> string option \<Rightarrow> bool \<Rightarrow> one_hot_encoder option \<Rightarrow>
   label_binarizer option \<Rightarrow>
   (error + cell list list \<times> labels \<times> one_hot_encoder option \<times> label_binarizer option)
     \<times> store" where
  "store_process_data h X cat_features label training encoder lb =
     (case store_split_label h X label of
        (Inl e, h) \<Rightarrow> (Inl e, h)
      | (Inr (y, X), h) \<Rightarrow>
     (case getitem_values (h ! X) cat_features of
        Inl e \<Rightarrow> (Inl e, h)
      | Inr X_categorical \<Rightarrow>
     (case store_drop h X cat_features of
        (Inl e, h) \<Rightarrow> (Inl e, h)
      | (Inr X_continuous, h) \<Rightarrow>
     (case fit_or_transform training encoder lb X_categorical y of
        Inl e \<Rightarrow> (Inl e, h)
      | Inr (X_categorical, y, encoder, lb) \<Rightarrow>
     (case concatenate (rows (h ! X_continuous)) X_categorical of
        Inl e \<Rightarrow> (Inl e, h)
      | Inr M \<Rightarrow> (Inr (M, y, encoder, lb), h))))))"

section \<open>Notions used in the statements\<close>

text \<open>
  The position of a column name, the cell of a row in a named column, a whole column, the
  names taken by the label argument, and the two parts the feature table is split into.
\<close>

fun position :: "'a \<Rightarrow> 'a list \<Rightarrow> nat" where
  "position x [] = 0"
| "position x (y # ys) = (if x = y then 0 else Suc (position x ys))"

definition cell_in :: "table \<Rightarrow> cell list \<Rightarrow> string \<Rightarrow> cell" where
  "cell_in X r n = r ! position n (columns X)"

definition column :: "table \<Rightarrow> string \<Rightarrow> cell list" where
  "column X n = map (\<lambda>r. cell_in X r n) (rows X)"

definition label_names :: "string option \<Rightarrow> string list" where
  "label_names label = (case label of None \<Rightarrow> [] | Some l \<Rightarrow> [l])"

definition categorical_values :: "table \<Rightarrow> string list \<Rightarrow> cell list list" where
  "categorical_values X names = map (\<lambda>r. map (cell_in X r) names) (rows X)"

definition continuous_values :: "table \<Rightarrow> string list \<Rightarrow> cell list list" where
  "continuous_values X names = map (keep_cells names (columns X)) (rows X)"

definition raw_labels :: "table \<Rightarrow> string option \<Rightarrow> labels" where
  "raw_labels X label = (case label of None \<Rightarrow> Array [] | Some l \<Rightarrow> Series (column X l))"

text \<open>
  The matrix the features of a table are expected to give under the categories \<open>cats\<close>:
  per row, the cells outside the label and the categorical columns in their original
  order, as float64 when all of them in the table are integers, then one indicator block
  per categorical feature.
\<close>

definition feature_matrix ::
  "table \<Rightarrow> string list \<Rightarrow> string option \<Rightarrow> one_hot_encoder \<Rightarrow> cell list list" where
  "feature_matrix X cf label cats =
     map (\<lambda>r. (if numeric_array (continuous_values X (label_names label @ cf))
                 then map float64_cell (keep_cells (label_names label @ cf) (columns X) r)
                 else keep_cells (label_names label @ cf) (columns X) r)
                @ concat (map (\<lambda>(cs, n). one_hot cs (cell_in X r n)) (zip cats cf)))
         (rows X)"


fun labels_len :: "labels \<Rightarrow> nat" where
  "labels_len (Series xs) = length xs"
| "labels_len (Array xs) = length xs"

text \<open>
  The values of a list in the order of their first appearance, and the pairs of a
  categorical feature and a value of its column, the features in the order of the list
  and the values of each in the order of their first appearance in the column.
\<close>

primrec first_seen :: "'a list \<Rightarrow> 'a list" where
  "first_seen [] = []"
| "first_seen (x # xs) = x # filter (\<lambda>y. y \<noteq> x) (first_seen xs)"

definition slice_pairs :: "table \<Rightarrow> string list \<Rightarrow> (string \<times> cell) list" where
  "slice_pairs data cfs = concat (map (\<lambda>c. map (Pair c) (first_seen (column data c))) cfs)"

text \<open>The rows of a table that hold a value in a column.\<close>

definition matching_rows :: "table \<Rightarrow> string \<Rightarrow> cell \<Rightarrow> table" where
  "matching_rows data c v =
     \<lparr>columns = columns data, rows = filter (\<lambda>r. cell_in data r c = v) (rows data)\<rparr>"

text \<open>
  Collaborators for the examples: every prediction is 0, and the three metrics are the
  number of labels, the number of predictions and their sum.
\<close>

definition example_model :: "(int list, nat) collaborators" where
  "example_model =
     \<lparr>predict = (\<lambda>X. Inr (map (\<lambda>_. 0) X)),
      compute_model_metrics =
        (\<lambda>y y_pred. Inr (labels_len y, length y_pred, labels_len y + length y_pred)),
      format_metric = string_of_nat\<rparr>"

text \<open>
  The binarizer passed to an inference call with a label column is None, or it has
  classes, the label column holds values of one kind, and these are not integers looked
  up among classes that hold a string.
\<close>

definition binarizer_fits :: "label_binarizer option \<Rightarrow> table \<Rightarrow> string option \<Rightarrow> bool" where
  "binarizer_fits lb X label =
     (case (label, lb) of
        (Some n, Some classes) \<Rightarrow>
          classes \<noteq> [] \<and> uniform (column X n) \<and>
          \<not> (list_all is_num (column X n) \<and> list_ex is_str classes)
      | _ \<Rightarrow> True)"

text \<open>
  The table of the example in section 8 of the specification; a table with two
  categorical columns and repeated values; a table whose label column has three values;
  one with an unseen category, one with a number where the encoder was fitted on
  strings, and one with an integer beyond 53 bits.
\<close>

definition example_table :: table where
  "example_table =
     \<lparr>columns = [''age'', ''sex'', ''salary''],
      rows = [[Num 25, Str ''M'', Str ''<=50K''], [Num 40, Str ''F'', Str ''>50K'']]\<rparr>"

definition census_table :: table where
  "census_table =
     \<lparr>columns = [''age'', ''workclass'', ''sex'', ''salary''],
      rows = [[Num 39, Str ''State-gov'', Str ''M'', Str ''<=50K''],
              [Num 50, Str ''Private'', Str ''F'', Str ''>50K''],
              [Num 38, Str ''Private'', Str ''M'', Str ''<=50K'']]\<rparr>"

definition three_class_table :: table where
  "three_class_table =
     \<lparr>columns = [''sex'', ''grade''],
      rows = [[Str ''M'', Str ''a''], [Str ''F'', Str ''b''], [Str ''F'', Str ''c'']]\<rparr>"

definition unseen_table :: table where
  "unseen_table = \<lparr>columns = [''age'', ''sex''], rows = [[Num 30, Str ''X'']]\<rparr>"

definition numeric_sex_table :: table where
  "numeric_sex_table = \<lparr>columns = [''age'', ''sex''], rows = [[Num 30, Num 7]]\<rparr>"

definition large_table :: table where
  "large_table =
     \<lparr>columns = [''id'', ''sex'', ''salary''],
      rows = [[Num 9007199254740993, Str ''M'', Str ''<=50K'']]\<rparr>"

section \<open>Facts about the table operations\<close>

lemma index_of_position:
  "index_of x xs = (if x \<in> set xs then Some (position x xs) else None)"
  by (induction xs) auto

lemma positions_eq:
  "sequence (map (\<lambda>n. case index_of n cols of None \<Rightarrow> Inl KeyError | Some i \<Rightarrow> Inr i) names)
     = (if set names \<subseteq> set cols then Inr (map (\<lambda>n. position n cols) names)
        else Inl KeyError)"
  by (induction names) (auto simp: index_of_position)

lemma getitem_eq:
  "getitem X l = (if l \<in> set (columns X) then Inr (column X l) else Inl KeyError)"
  by (simp add: getitem_def index_of_position column_def cell_in_def)

lemma getitem_values_eq:
  "getitem_values X names =
     (if set names \<subseteq> set (columns X)
      then Inr (map (\<lambda>r. map (cell_in X r) names) (rows X)) else Inl KeyError)"
  by (simp add: getitem_values_def positions_eq cell_in_def)

lemma drop_columns_eq:
  "drop_columns X names =
     (if set names \<subseteq> set (columns X)
      then Inr \<lparr>columns = filter (\<lambda>c. c \<notin> set names) (columns X),
                rows = map (keep_cells names (columns X)) (rows X)\<rparr>
      else Inl KeyError)"
  by (auto simp: drop_columns_def list_all_iff)

lemma length_keep_cells:
  "length r = length cols \<Longrightarrow>
   length (keep_cells names cols r) = length (filter (\<lambda>c. c \<notin> set names) cols)"
  by (induction cols arbitrary: r) (auto simp: keep_cells_def length_Suc_conv)

lemma keep_cells_keep_cells:
  "length r = length cols \<Longrightarrow>
   keep_cells ns2 (filter (\<lambda>c. c \<notin> set ns1) cols) (keep_cells ns1 cols r)
     = keep_cells (ns1 @ ns2) cols r"
  by (induction cols arbitrary: r) (auto simp: keep_cells_def length_Suc_conv)

lemma keep_cells_position:
  "length r = length cols \<Longrightarrow> n \<in> set cols \<Longrightarrow> n \<notin> set names \<Longrightarrow>
   keep_cells names cols r ! position n (filter (\<lambda>c. c \<notin> set names) cols)
     = r ! position n cols"
  by (induction cols arbitrary: r) (auto simp: keep_cells_def length_Suc_conv)

lemma keep_cells_Nil: "length r = length cols \<Longrightarrow> keep_cells [] cols r = r"
  by (induction cols arbitrary: r) (auto simp: keep_cells_def length_Suc_conv)

lemma wf_rowD: "wf_table X \<Longrightarrow> r \<in> set (rows X) \<Longrightarrow> length r = length (columns X)"
  by (simp add: wf_table_def list_all_iff)

lemma split_label_eq:
  assumes "wf_table X"
  shows "split_label X label =
     (if set (label_names label) \<subseteq> set (columns X)
      then Inr (raw_labels X label,
                \<lparr>columns = filter (\<lambda>c. c \<notin> set (label_names label)) (columns X),
                 rows = continuous_values X (label_names label)\<rparr>)
      else Inl KeyError)"
proof (cases label)
  case None
  have "map (keep_cells [] (columns X)) (rows X) = rows X"
    using wf_rowD[OF assms] by (simp add: keep_cells_Nil map_idI)
  then show ?thesis using None
    by (simp add: split_label_def label_names_def raw_labels_def continuous_values_def)
next
  case (Some l)
  then show ?thesis
    by (simp add: split_label_def label_names_def raw_labels_def continuous_values_def
        getitem_eq drop_columns_eq)
qed

lemma select_after_drop:
  assumes "wf_table X" and "set cf \<subseteq> set (columns X) - set ns"
  shows "getitem_values \<lparr>columns = filter (\<lambda>c. c \<notin> set ns) (columns X),
                          rows = continuous_values X ns\<rparr> cf
         = Inr (categorical_values X cf)"
proof -
  have "map (cell_in \<lparr>columns = filter (\<lambda>c. c \<notin> set ns) (columns X),
                      rows = continuous_values X ns\<rparr> (keep_cells ns (columns X) r)) cf
        = map (cell_in X r) cf" if "r \<in> set (rows X)" for r
    using assms(2) wf_rowD[OF assms(1) that]
    by (auto simp: cell_in_def keep_cells_position)
  then show ?thesis using assms(2)
    by (auto simp: getitem_values_eq categorical_values_def continuous_values_def)
qed

lemma drop_after_drop:
  assumes "wf_table X" and "set cf \<subseteq> set (columns X) - set ns"
  shows "drop_columns \<lparr>columns = filter (\<lambda>c. c \<notin> set ns) (columns X),
                        rows = continuous_values X ns\<rparr> cf
         = Inr \<lparr>columns = filter (\<lambda>c. c \<notin> set (ns @ cf)) (columns X),
                 rows = continuous_values X (ns @ cf)\<rparr>"
proof -
  have "keep_cells cf (filter (\<lambda>c. c \<notin> set ns) (columns X)) (keep_cells ns (columns X) r)
        = keep_cells (ns @ cf) (columns X) r" if "r \<in> set (rows X)" for r
    using wf_rowD[OF assms(1) that] by (simp add: keep_cells_keep_cells)
  then show ?thesis using assms(2)
    by (auto simp: drop_columns_eq continuous_values_def)
qed

lemma process_data_eq:
  assumes "wf_table X"
  shows "process_data X cf label training encoder lb =
     (if set (label_names label) \<subseteq> set (columns X) \<and>
         set cf \<subseteq> set (columns X) - set (label_names label)
      then (case fit_or_transform training encoder lb (categorical_values X cf)
                   (raw_labels X label) of
              Inl e \<Rightarrow> Inl e
            | Inr (B, y, enc, lb') \<Rightarrow>
                (case concatenate (continuous_values X (label_names label @ cf)) B of
                   Inl e \<Rightarrow> Inl e
                 | Inr M \<Rightarrow> Inr (M, y, enc, lb')))
      else Inl KeyError)"
proof (cases "set (label_names label) \<subseteq> set (columns X)")
  case False
  then show ?thesis by (simp add: process_data_def split_label_eq[OF assms])
next
  case l: True
  show ?thesis
  proof (cases "set cf \<subseteq> set (columns X) - set (label_names label)")
    case True
    show ?thesis using l True
      by (simp add: process_data_def split_label_eq[OF assms]
          select_after_drop[OF assms True] drop_after_drop[OF assms True]
          split: sum.split prod.split)
  next
    case False
    then have "\<not> set cf \<subseteq> set (filter (\<lambda>c. c \<notin> set (label_names label)) (columns X))"
      by auto
    then show ?thesis using l False
      by (simp add: process_data_def split_label_eq[OF assms] getitem_values_eq)
  qed
qed

section \<open>Facts about the transformers\<close>

lemma sequence_map_InrD:
  "sequence (map f xs) = Inr ys \<Longrightarrow>
   length ys = length xs \<and> (\<forall>i<length xs. f (xs ! i) = Inr (ys ! i))"
proof (induction xs arbitrary: ys)
  case Nil
  then show ?case by simp
next
  case (Cons a xs)
  from Cons.prems obtain v vs where v: "f a = Inr v" and vs: "sequence (map f xs) = Inr vs"
    and ys: "ys = v # vs"
    by (auto split: sum.splits)
  from Cons.IH[OF vs] have "length vs = length xs" and
    nth: "\<And>i. i < length xs \<Longrightarrow> f (xs ! i) = Inr (vs ! i)" by auto
  then show ?case using v ys by (auto simp: nth_Cons split: nat.split)
qed

lemma Num_num_of: "is_num c \<Longrightarrow> Num (num_of c) = c"
  by (cases c) auto

lemma Str_str_of: "is_str c \<Longrightarrow> Str (str_of c) = c"
  by (cases c) auto

lemma is_str_iff: "is_str c \<longleftrightarrow> \<not> is_num c"
  by (cases c) auto

lemma np_unique_InrD:
  assumes "np_unique xs = Inr cs"
  shows "distinct cs \<and> set cs = set xs"
proof (cases "list_all is_num xs")
  case True
  then have cs: "cs = map Num (sort (remdups (map num_of xs)))"
    using assms by (simp add: np_unique_def)
  have "Num ` num_of ` set xs = set xs"
    using True by (force simp: list_all_iff Num_num_of image_iff)
  then show ?thesis unfolding cs by (simp add: distinct_map inj_on_def)
next
  case False
  then have str: "list_all is_str xs" and cs: "cs = map Str (sort (remdups (map str_of xs)))"
    using assms by (auto simp: np_unique_def split: if_splits)
  have "Str ` str_of ` set xs = set xs"
    using str by (force simp: list_all_iff Str_str_of image_iff)
  then show ?thesis unfolding cs by (simp add: distinct_map inj_on_def)
qed

lemma check_array_categorical:
  "check_array (categorical_values X cf) =
     (if rows X = [] \<or> cf = [] then Inl ValueError else Inr (length cf))"
  by (cases "rows X") (auto simp: check_array_def categorical_values_def)

lemma length_categorical_values [simp]:
  "length (categorical_values X cf) = length (rows X)"
  by (simp add: categorical_values_def)

lemma length_continuous_values [simp]:
  "length (continuous_values X ns) = length (rows X)"
  by (simp add: continuous_values_def)

lemma length_column [simp]: "length (column X n) = length (rows X)"
  by (simp add: column_def)

lemma categorical_column:
  "i < length cf \<Longrightarrow> map (\<lambda>r. r ! i) (categorical_values X cf) = column X (cf ! i)"
  by (simp add: categorical_values_def column_def)

lemma numeric_categorical:
  "numeric_array (categorical_values X cf) \<longleftrightarrow>
     (\<forall>n\<in>set cf. list_all is_num (column X n))"
  by (auto simp: numeric_array_def categorical_values_def column_def list_all_iff)

lemma ohe_transform_categorical:
  "ohe_transform cats (categorical_values X cf) =
     (if rows X = [] \<or> cf = [] \<or> length cf \<noteq> length cats then Inl ValueError
      else if numeric_array (categorical_values X cf) \<and> object_categories cats
      then Inl TypeError
      else Inr (map (encode_row cats) (categorical_values X cf)))"
  by (simp add: ohe_transform_def check_array_categorical)

lemma ohe_fit_categorical_InrD:
  assumes "ohe_fit (categorical_values X cf) = Inr cats"
  shows "rows X \<noteq> []" and "cf \<noteq> []" and "length cats = length cf"
    and "\<And>i. i < length cf \<Longrightarrow> np_unique (column X (cf ! i)) = Inr (cats ! i)"
proof -
  from assms have ne: "rows X \<noteq> [] \<and> cf \<noteq> []"
    by (auto simp: ohe_fit_def check_array_categorical split: if_splits)
  then show "rows X \<noteq> []" and "cf \<noteq> []" by auto
  from assms ne have seq: "sequence (map (\<lambda>i. np_unique (map (\<lambda>r. r ! i)
      (categorical_values X cf))) [0..<length cf]) = Inr cats"
    by (simp add: ohe_fit_def check_array_categorical)
  from sequence_map_InrD[OF seq] show "length cats = length cf"
    and "\<And>i. i < length cf \<Longrightarrow> np_unique (column X (cf ! i)) = Inr (cats ! i)"
    by (auto simp: categorical_column)
qed

text \<open>The categories fitted on a numeric array are numbers.\<close>

lemma ohe_fit_numeric:
  assumes fit: "ohe_fit (categorical_values X cf) = Inr cats"
    and num: "numeric_array (categorical_values X cf)"
  shows "\<not> object_categories cats"
proof
  assume "object_categories cats"
  then obtain cs c where "cs \<in> set cats" and c': "c \<in> set cs" and s: "is_str c"
    by (auto simp: object_categories_def list_ex_iff)
  then obtain i where i: "i < length cats" and c: "c \<in> set (cats ! i)"
    by (auto simp: in_set_conv_nth)
  note fitD = ohe_fit_categorical_InrD[OF fit]
  from i fitD(3) have i': "i < length cf" by simp
  from np_unique_InrD[OF fitD(4)[OF i']] c have "c \<in> set (column X (cf ! i))" by simp
  moreover from num i' have "list_all is_num (column X (cf ! i))"
    by (simp add: numeric_categorical)
  ultimately have "is_num c" by (simp add: list_all_iff)
  with s show False by (simp add: is_str_iff)
qed

lemma length_encode_row:
  "length r = length cats \<Longrightarrow> length (encode_row cats r) = sum_list (map length cats)"
proof (induction cats r rule: list_induct2')
  case (4 c cs v vs)
  then show ?case by (simp add: encode_row_def one_hot_def)
qed (simp_all add: encode_row_def)

section \<open>Facts about the conversion to float64\<close>

lemma excess_bits_small: "a < 2 ^ 53 \<Longrightarrow> excess_bits a = 0"
  by (subst excess_bits.simps) simp

lemma float64_of_int_small: "\<bar>i\<bar> < 2 ^ 53 \<Longrightarrow> float64_of_int i = i"
  by (simp add: float64_of_int_def excess_bits_small Let_def)

lemma float64_indicator:
  "map float64_cell (one_hot cs v) = one_hot cs v"
  by (induction cs) (auto simp: one_hot_def float64_of_int_small)

lemma float64_encode_row: "map float64_cell (encode_row cats r) = encode_row cats r"
proof -
  have "map float64_cell (concat (map (\<lambda>(cs, v). one_hot cs v) ps))
        = concat (map (\<lambda>(cs, v). one_hot cs v) ps)" for ps
    by (induction ps) (auto simp: float64_indicator)
  then show ?thesis by (simp add: encode_row_def)
qed

lemma is_num_one_hot: "list_all is_num (one_hot cs v)"
  by (induction cs) (auto simp: one_hot_def)

lemma is_num_encode_row: "list_all is_num (encode_row cats r)"
proof -
  have "list_all is_num (concat (map (\<lambda>(cs, v). one_hot cs v) ps))" for ps
    by (induction ps) (auto simp: is_num_one_hot)
  then show ?thesis by (simp add: encode_row_def)
qed

lemma numeric_array_map:
  "numeric_array (map f xs) \<longleftrightarrow> (\<forall>x\<in>set xs. list_all is_num (f x))"
  by (induction xs) (simp_all add: numeric_array_def)

lemma concatenate_features:
  "concatenate (continuous_values X (label_names label @ cf))
       (map (encode_row cats) (categorical_values X cf))
     = Inr (feature_matrix X cf label cats)"
proof -
  let ?ns = "label_names label @ cf"
  let ?enc = "\<lambda>r. concat (map (\<lambda>(cs, n). one_hot cs (cell_in X r n)) (zip cats cf))"
  let ?M = "map (\<lambda>r. keep_cells ?ns (columns X) r @ ?enc r) (rows X)"
  have enc: "?enc r = encode_row cats (map (cell_in X r) cf)" for r
    by (simp add: encode_row_def zip_map2 case_prod_unfold comp_def)
  have enc_num: "list_all is_num (?enc r)" for r
    unfolding enc by (rule is_num_encode_row)
  have enc_float: "map float64_cell (?enc r) = ?enc r" for r
    unfolding enc by (rule float64_encode_row)
  have M: "map (\<lambda>(a, b). a @ b) (zip (continuous_values X ?ns)
             (map (encode_row cats) (categorical_values X cf))) = ?M"
    by (simp add: continuous_values_def categorical_values_def zip_map_map
        zip_same_conv_map enc)
  have num: "numeric_array ?M \<longleftrightarrow> numeric_array (continuous_values X ?ns)"
    using enc_num by (simp add: numeric_array_map continuous_values_def)
  have "(if numeric_array ?M then map (map float64_cell) ?M else ?M)
        = feature_matrix X cf label cats"
    unfolding num feature_matrix_def using enc_float by simp
  then show ?thesis unfolding concatenate_def M Let_def by simp
qed

lemma length_feature_matrix [simp]:
  "length (feature_matrix X cf label cats) = length (rows X)"
  by (simp add: feature_matrix_def)

section \<open>Facts about process_data\<close>

lemma transform_labels_Array: "transform_labels lb (Array ys) = Inr (Array ys)"
  by (cases lb) (simp_all add: transform_labels_def)

lemma transform_labels_None: "transform_labels None y = Inr y"
  by (simp add: transform_labels_def)

lemma series_values_raw_labels:
  "series_values (raw_labels X label) = Inr v \<longleftrightarrow> (\<exists>n. label = Some n \<and> v = column X n)"
  by (cases label) (auto simp: raw_labels_def)

lemma fit_or_transform_training:
  "fit_or_transform True encoder lb A y = fit_or_transform True None None A y"
  by (simp add: fit_or_transform_def)

lemma inference_eq:
  assumes "wf_table X"
  shows "process_data X cf label False (Some cats) lb =
     (if \<not> (set (label_names label) \<subseteq> set (columns X) \<and>
             set cf \<subseteq> set (columns X) - set (label_names label)) then Inl KeyError
      else if rows X = [] \<or> cf = [] \<or> length cf \<noteq> length cats then Inl ValueError
      else if numeric_array (categorical_values X cf) \<and> object_categories cats
      then Inl TypeError
      else (case transform_labels lb (raw_labels X label) of
              Inl e \<Rightarrow> Inl e
            | Inr y \<Rightarrow> Inr (feature_matrix X cf label cats, y, Some cats, lb)))"
  by (simp add: process_data_eq[OF assms] fit_or_transform_def ohe_transform_categorical
      concatenate_features split: sum.split)

section \<open>Facts about the label binarizer\<close>

lemma np_unique_length: "np_unique xs = Inr cs \<Longrightarrow> length cs = length (remdups xs)"
  using np_unique_InrD[of xs cs] by (metis distinct_card length_remdups_card_conv)

lemma np_unique_returns: "(\<exists>cs. np_unique xs = Inr cs) \<longleftrightarrow> uniform xs"
  by (auto simp: np_unique_def uniform_def)

lemma np_unique_numeric:
  assumes "np_unique y = Inr classes" and "list_all is_num y"
  shows "\<not> list_ex is_str classes"
  using np_unique_InrD[OF assms(1)] assms(2) by (auto simp: list_all_iff list_ex_iff is_str_iff)

lemma label_binarize_length:
  assumes "label_binarize y classes = Inr Y" and "length (remdups y) \<le> 2"
    and "length classes \<le> 2"
  shows "length (concat Y) = length y"
proof -
  have bin: "type_of_target y = Binary" using assms(2) by (simp add: type_of_target_def)
  have single: "length (concat (map (\<lambda>v. [f v]) y)) = length y" for f :: "cell \<Rightarrow> int"
    by (simp add: concat_map_singleton)
  from assms(1,3) bin have
    "Y = map (\<lambda>_. [0]) y \<or>
     Y = map (\<lambda>v. [last (map (\<lambda>c. if c = v then 1 else 0) classes)]) y"
    by (auto simp: label_binarize_def Let_def comp_def split: if_splits)
  then show ?thesis using single by auto
qed

lemma label_binarize_not_AttributeError: "label_binarize y classes \<noteq> Inl AttributeError"
  by (simp add: label_binarize_def Let_def)

lemma label_binarize_returns:
  assumes "y \<noteq> []" and "uniform y" and "classes \<noteq> []"
    and "\<not> (list_all is_num y \<and> list_ex is_str classes)"
  shows "\<exists>Y. label_binarize y classes = Inr Y"
  using assms by (auto simp: label_binarize_def Let_def)

lemma lb_fit_transform_length:
  assumes "lb_fit_transform v = Inr (classes, Y)" and "length (remdups v) \<le> 2"
  shows "length (concat Y) = length v"
proof -
  from assms(1) have c: "np_unique v = Inr classes" and Y: "label_binarize v classes = Inr Y"
    by (auto simp: lb_fit_transform_def lb_fit_def lb_transform_def split: sum.splits if_splits)
  from np_unique_length[OF c] assms(2) have "length classes \<le> 2" by simp
  from label_binarize_length[OF Y assms(2) this] show ?thesis .
qed

lemma lb_fit_transform_returns:
  "(\<exists>classes Y. lb_fit_transform y = Inr (classes, Y) \<and> lb_fit y = Inr classes)
     \<longleftrightarrow> y \<noteq> [] \<and> uniform y"
proof
  assume "\<exists>classes Y. lb_fit_transform y = Inr (classes, Y) \<and> lb_fit y = Inr classes"
  then obtain classes where "y \<noteq> []" and "np_unique y = Inr classes"
    by (auto simp: lb_fit_def split: if_splits)
  then show "y \<noteq> [] \<and> uniform y" using np_unique_returns[of y] by auto
next
  assume y: "y \<noteq> [] \<and> uniform y"
  then obtain classes where c: "np_unique y = Inr classes"
    using np_unique_returns[of y] by auto
  from np_unique_InrD[OF c] y have "classes \<noteq> []" by auto
  moreover from np_unique_numeric[OF c] have
    "\<not> (list_all is_num y \<and> list_ex is_str classes)" by auto
  ultimately obtain Y where "label_binarize y classes = Inr Y"
    using label_binarize_returns[of y classes] y by auto
  with c y show "\<exists>classes Y. lb_fit_transform y = Inr (classes, Y) \<and> lb_fit y = Inr classes"
    by (simp add: lb_fit_transform_def lb_fit_def lb_transform_def)
qed

lemma transform_labels_Series:
  "transform_labels (Some classes) (Series v) =
     (case label_binarize v classes of Inl e \<Rightarrow> Inl e | Inr Y \<Rightarrow> Inr (ravel Y))"
proof (cases "label_binarize v classes")
  case (Inl e)
  with label_binarize_not_AttributeError[of v classes] show ?thesis
    by (cases e) (simp_all add: transform_labels_def lb_transform_def)
next
  case (Inr Y)
  then show ?thesis by (simp add: transform_labels_def lb_transform_def)
qed

section \<open>When a training call returns, and what\<close>

lemma sequence_returns:
  "(\<And>x. x \<in> set xs \<Longrightarrow> \<exists>v. f x = Inr v) \<Longrightarrow> \<exists>vs. sequence (map f xs) = Inr vs"
proof (induction xs)
  case Nil
  then show ?case by simp
next
  case (Cons a xs)
  from Cons.prems[of a] obtain v where "f a = Inr v" by auto
  moreover from Cons.IH Cons.prems obtain vs where "sequence (map f xs) = Inr vs" by auto
  ultimately show ?case by simp
qed

lemma ohe_fit_returns:
  "(\<exists>cats. ohe_fit (categorical_values X cf) = Inr cats) \<longleftrightarrow>
     rows X \<noteq> [] \<and> cf \<noteq> [] \<and> (\<forall>n\<in>set cf. uniform (column X n))"
proof
  assume "\<exists>cats. ohe_fit (categorical_values X cf) = Inr cats"
  then obtain cats where fit: "ohe_fit (categorical_values X cf) = Inr cats" ..
  note fitD = ohe_fit_categorical_InrD[OF fit]
  have "uniform (column X n)" if "n \<in> set cf" for n
  proof -
    from that obtain i where "i < length cf" and "n = cf ! i"
      by (auto simp: in_set_conv_nth)
    with fitD(4)[of i] np_unique_returns[of "column X n"] show ?thesis by auto
  qed
  with fitD(1,2) show "rows X \<noteq> [] \<and> cf \<noteq> [] \<and> (\<forall>n\<in>set cf. uniform (column X n))"
    by blast
next
  assume pre: "rows X \<noteq> [] \<and> cf \<noteq> [] \<and> (\<forall>n\<in>set cf. uniform (column X n))"
  have "\<exists>v. np_unique (map (\<lambda>r. r ! i) (categorical_values X cf)) = Inr v"
    if "i \<in> set [0..<length cf]" for i
    using that pre np_unique_returns[of "column X (cf ! i)"] by (simp add: categorical_column)
  from sequence_returns[of "[0..<length cf]"
      "\<lambda>i. np_unique (map (\<lambda>r. r ! i) (categorical_values X cf))", OF this]
  show "\<exists>cats. ohe_fit (categorical_values X cf) = Inr cats"
    using pre by (simp add: ohe_fit_def check_array_categorical)
qed

text \<open>The training branch, lines 70 to 73, on the categorical values and the labels.\<close>

lemma fit_or_transform_training_eq:
  "fit_or_transform True encoder lb (categorical_values X cf) y =
     (case ohe_fit (categorical_values X cf) of
        Inl e \<Rightarrow> Inl e
      | Inr cats \<Rightarrow>
     (case series_values y of
        Inl e \<Rightarrow> Inl e
      | Inr v \<Rightarrow>
     (case lb_fit_transform v of
        Inl e \<Rightarrow> Inl e
      | Inr (classes, Y) \<Rightarrow>
          Inr (map (encode_row cats) (categorical_values X cf), ravel Y,
               Some cats, Some classes))))"
proof (cases "ohe_fit (categorical_values X cf)")
  case (Inl e)
  then show ?thesis by (simp add: fit_or_transform_def ohe_fit_transform_def)
next
  case (Inr cats)
  note fitD = ohe_fit_categorical_InrD[OF Inr]
  have "\<not> (numeric_array (categorical_values X cf) \<and> object_categories cats)"
    using ohe_fit_numeric[OF Inr] by blast
  with fitD(1-3) have "ohe_transform cats (categorical_values X cf)
      = Inr (map (encode_row cats) (categorical_values X cf))"
    by (simp add: ohe_transform_categorical)
  with Inr show ?thesis
    by (simp add: fit_or_transform_def ohe_fit_transform_def split: sum.split prod.split)
qed

lemma training_result:
  assumes wf: "wf_table X"
    and ok: "process_data X cf label True encoder lb = Inr (M, y, e, b)"
  shows "\<exists>cats classes Y n. label = Some n \<and> n \<in> set (columns X) \<and>
           set cf \<subseteq> set (columns X) - {n} \<and>
           ohe_fit (categorical_values X cf) = Inr cats \<and> e = Some cats \<and>
           lb_fit_transform (column X n) = Inr (classes, Y) \<and>
           lb_fit (column X n) = Inr classes \<and> b = Some classes \<and>
           y = ravel Y \<and> M = feature_matrix X cf label cats"
proof -
  from ok have cols: "set (label_names label) \<subseteq> set (columns X)"
      "set cf \<subseteq> set (columns X) - set (label_names label)"
    unfolding process_data_eq[OF wf] by (auto split: if_splits)
  from ok cols obtain B where
    fit: "fit_or_transform True encoder lb (categorical_values X cf) (raw_labels X label)
          = Inr (B, y, e, b)"
    and cat: "concatenate (continuous_values X (label_names label @ cf)) B = Inr M"
    unfolding process_data_eq[OF wf] by (auto split: if_splits sum.splits)
  from fit obtain cats v classes Y where cats: "ohe_fit (categorical_values X cf) = Inr cats"
    and v: "series_values (raw_labels X label) = Inr v"
    and lb: "lb_fit_transform v = Inr (classes, Y)"
    and res: "B = map (encode_row cats) (categorical_values X cf)" "y = ravel Y"
      "e = Some cats" "b = Some classes"
    unfolding fit_or_transform_training_eq by (auto split: sum.splits)
  from v obtain n where n: "label = Some n" "v = column X n"
    by (auto simp: series_values_raw_labels)
  from lb have "lb_fit v = Inr classes"
    by (auto simp: lb_fit_transform_def split: sum.splits)
  moreover from cat have "M = feature_matrix X cf label cats"
    unfolding res(1) concatenate_features by simp
  ultimately show ?thesis using cats lb res n cols by (auto simp: label_names_def)
qed

lemma training_returns:
  assumes wf: "wf_table X"
  shows "(\<exists>M y e b. process_data X cf label True encoder lb = Inr (M, y, e, b)) \<longleftrightarrow>
         rows X \<noteq> [] \<and> cf \<noteq> [] \<and>
         (\<exists>l. label = Some l \<and> l \<in> set (columns X) \<and> set cf \<subseteq> set (columns X) - {l} \<and>
              uniform (column X l)) \<and>
         (\<forall>n\<in>set cf. uniform (column X n))"
proof
  assume "\<exists>M y e b. process_data X cf label True encoder lb = Inr (M, y, e, b)"
  then obtain M y e b where "process_data X cf label True encoder lb = Inr (M, y, e, b)"
    by blast
  from training_result[OF wf this] obtain cats classes Y n where n: "label = Some n"
    "n \<in> set (columns X)" "set cf \<subseteq> set (columns X) - {n}"
    and fit: "ohe_fit (categorical_values X cf) = Inr cats"
    and lb: "lb_fit_transform (column X n) = Inr (classes, Y)"
      "lb_fit (column X n) = Inr classes"
    by blast
  from fit ohe_fit_returns[of X cf] have "rows X \<noteq> []" "cf \<noteq> []"
    "\<forall>n\<in>set cf. uniform (column X n)" by blast+
  moreover from lb lb_fit_transform_returns[of "column X n"] have "uniform (column X n)"
    by blast
  ultimately show "rows X \<noteq> [] \<and> cf \<noteq> [] \<and>
         (\<exists>l. label = Some l \<and> l \<in> set (columns X) \<and> set cf \<subseteq> set (columns X) - {l} \<and>
              uniform (column X l)) \<and>
         (\<forall>n\<in>set cf. uniform (column X n))"
    using n by blast
next
  assume pre: "rows X \<noteq> [] \<and> cf \<noteq> [] \<and>
         (\<exists>l. label = Some l \<and> l \<in> set (columns X) \<and> set cf \<subseteq> set (columns X) - {l} \<and>
              uniform (column X l)) \<and>
         (\<forall>n\<in>set cf. uniform (column X n))"
  then obtain l where l: "label = Some l" "l \<in> set (columns X)"
    "set cf \<subseteq> set (columns X) - {l}" "uniform (column X l)" by blast
  from pre ohe_fit_returns[of X cf] obtain cats where
    cats: "ohe_fit (categorical_values X cf) = Inr cats" by blast
  from pre have "column X l \<noteq> []" by (simp add: column_def)
  with l(4) lb_fit_transform_returns[of "column X l"] obtain classes Y where
    "lb_fit_transform (column X l) = Inr (classes, Y)" by blast
  moreover from l have "set (label_names label) \<subseteq> set (columns X)"
    and "set cf \<subseteq> set (columns X) - set (label_names label)"
    and "raw_labels X label = Series (column X l)"
    by (simp_all add: label_names_def raw_labels_def)
  ultimately show "\<exists>M y e b. process_data X cf label True encoder lb = Inr (M, y, e, b)"
    using cats
    by (simp add: process_data_eq[OF wf] fit_or_transform_training_eq concatenate_features)
qed

section \<open>The layout of the training output\<close>

lemma example_table_wf: "wf_table example_table"
  by (simp add: wf_table_def example_table_def)

lemma census_table_wf: "wf_table census_table"
  by (simp add: wf_table_def census_table_def)

lemma example_training:
  "process_data example_table [''sex''] (Some ''salary'') True None None =
     Inr ([[Num 25, Num 0, Num 1], [Num 40, Num 1, Num 0]], Array [0, 1],
          Some [[Str ''F'', Str ''M'']], Some [Str ''<=50K'', Str ''>50K''])"
  by code_simp

lemma census_training:
  "process_data census_table [''workclass'', ''sex''] (Some ''salary'') True None None =
     Inr ([[Num 39, Num 0, Num 1, Num 0, Num 1],
           [Num 50, Num 1, Num 0, Num 1, Num 0],
           [Num 38, Num 1, Num 0, Num 0, Num 1]], Array [0, 1, 0],
          Some [[Str ''Private'', Str ''State-gov''], [Str ''F'', Str ''M'']],
          Some [Str ''<=50K'', Str ''>50K''])"
  by code_simp

text \<open>
  An integer beyond 53 bits among numeric continuous cells comes back as the nearest
  float64.
\<close>

lemma large_training:
  "process_data large_table [''sex''] (Some ''salary'') True None None =
     Inr ([[Num 9007199254740992, Num 1]], Array [0],
          Some [[Str ''M'']], Some [Str ''<=50K''])"
  by code_simp

text \<open>
  C1. A training call returns exactly when the table has rows, a label column is given
  and is a column of the table, there is at least one categorical feature, each a column
  other than the label, and the label column and every categorical column hold values of
  one kind. When it returns, the encoder has fitted one category list per categorical
  feature, holding the distinct values of that column. Every row of the output matrix is
  the row's cells in the columns that are neither categorical nor the label, in their
  original order (as float64 when all these cells of the table are integers), followed by
  one indicator block per categorical feature in the order of the encoder's state. Its
  width is therefore the number \<open>c\<close> of such columns plus the sum of the numbers \<open>v_i\<close> of
  fitted categories.
\<close>

theorem training_layout:
  assumes wf: "wf_table X"
  shows "((\<exists>M y e b. process_data X cf label True encoder lb = Inr (M, y, e, b)) \<longleftrightarrow>
          rows X \<noteq> [] \<and> cf \<noteq> [] \<and>
          (\<exists>l. label = Some l \<and> l \<in> set (columns X) \<and> set cf \<subseteq> set (columns X) - {l} \<and>
               uniform (column X l)) \<and>
          (\<forall>n\<in>set cf. uniform (column X n))) \<and>
         (\<forall>M y e b. process_data X cf label True encoder lb = Inr (M, y, e, b) \<longrightarrow>
           (\<exists>cats. e = Some cats \<and> length cats = length cf \<and>
              (\<forall>i<length cf. distinct (cats ! i) \<and>
                              set (cats ! i) = set (column X (cf ! i))) \<and>
              M = map (\<lambda>r. (if numeric_array (continuous_values X (label_names label @ cf))
                             then map float64_cell
                                    (keep_cells (label_names label @ cf) (columns X) r)
                             else keep_cells (label_names label @ cf) (columns X) r)
                            @ concat (map (\<lambda>(cs, n). one_hot cs (cell_in X r n))
                                        (zip cats cf)))
                      (rows X) \<and>
              (\<forall>r\<in>set M. length r =
                 length (filter (\<lambda>c. c \<notin> set (label_names label @ cf)) (columns X))
                   + sum_list (map length cats))))"
proof (intro conjI allI impI)
  show "(\<exists>M y e b. process_data X cf label True encoder lb = Inr (M, y, e, b)) \<longleftrightarrow>
          rows X \<noteq> [] \<and> cf \<noteq> [] \<and>
          (\<exists>l. label = Some l \<and> l \<in> set (columns X) \<and> set cf \<subseteq> set (columns X) - {l} \<and>
               uniform (column X l)) \<and>
          (\<forall>n\<in>set cf. uniform (column X n))"
    by (rule training_returns[OF wf])
next
  fix M y e b
  let ?ns = "label_names label @ cf"
  assume ok: "process_data X cf label True encoder lb = Inr (M, y, e, b)"
  from training_result[OF wf ok] obtain cats where
    fit: "ohe_fit (categorical_values X cf) = Inr cats" and e: "e = Some cats"
    and M: "M = feature_matrix X cf label cats" by blast
  let ?row = "\<lambda>r. (if numeric_array (continuous_values X ?ns)
                    then map float64_cell (keep_cells ?ns (columns X) r)
                    else keep_cells ?ns (columns X) r)
                   @ concat (map (\<lambda>(cs, n). one_hot cs (cell_in X r n)) (zip cats cf))"
  note fitD = ohe_fit_categorical_InrD[OF fit]
  have vocab: "distinct (cats ! i) \<and> set (cats ! i) = set (column X (cf ! i))"
    if "i < length cf" for i
    using np_unique_InrD[OF fitD(4)[OF that]] .
  have width: "length r' = length (filter (\<lambda>c. c \<notin> set ?ns) (columns X))
                 + sum_list (map length cats)"
    if "r' \<in> set M" for r'
  proof -
    from that obtain r where r: "r \<in> set (rows X)" and r':
      "r' = (if numeric_array (continuous_values X ?ns)
             then map float64_cell (keep_cells ?ns (columns X) r)
             else keep_cells ?ns (columns X) r)
            @ concat (map (\<lambda>(cs, n). one_hot cs (cell_in X r n)) (zip cats cf))"
      unfolding M feature_matrix_def by auto
    have "concat (map (\<lambda>(cs, n). one_hot cs (cell_in X r n)) (zip cats cf))
          = encode_row cats (map (cell_in X r) cf)"
      by (simp add: encode_row_def zip_map2 case_prod_unfold comp_def)
    then show ?thesis
      unfolding r'
      using length_keep_cells[OF wf_rowD[OF wf r], of ?ns] fitD(3)
      by (simp add: length_encode_row)
  qed
  show "\<exists>cats. e = Some cats \<and> length cats = length cf \<and>
              (\<forall>i<length cf. distinct (cats ! i) \<and>
                              set (cats ! i) = set (column X (cf ! i))) \<and>
              M = map (\<lambda>r. (if numeric_array (continuous_values X (label_names label @ cf))
                             then map float64_cell
                                    (keep_cells (label_names label @ cf) (columns X) r)
                             else keep_cells (label_names label @ cf) (columns X) r)
                            @ concat (map (\<lambda>(cs, n). one_hot cs (cell_in X r n))
                                        (zip cats cf)))
                      (rows X) \<and>
              (\<forall>r\<in>set M. length r =
                 length (filter (\<lambda>c. c \<notin> set (label_names label @ cf)) (columns X))
                   + sum_list (map length cats))"
  proof (intro exI[of _ cats] conjI)
    show "e = Some cats" by (rule e)
    show "length cats = length cf" by (rule fitD(3))
    show "\<forall>i<length cf. distinct (cats ! i) \<and> set (cats ! i) = set (column X (cf ! i))"
      using vocab by blast
    show "M = map ?row (rows X)"
      using M unfolding feature_matrix_def .
    show "\<forall>r\<in>set M. length r =
            length (filter (\<lambda>c. c \<notin> set (label_names label @ cf)) (columns X))
              + sum_list (map length cats)"
      using width by blast
  qed
qed

theorem training_layout_witness:
  "wf_table census_table \<and>
   rows census_table \<noteq> [] \<and> [''workclass'', ''sex''] \<noteq> [] \<and>
   ''salary'' \<in> set (columns census_table) \<and>
   set [''workclass'', ''sex''] \<subseteq> set (columns census_table) - {''salary''} \<and>
   uniform (column census_table ''salary'') \<and>
   uniform (column census_table ''workclass'') \<and>
   uniform (column census_table ''sex'') \<and>
   process_data census_table [''workclass'', ''sex''] (Some ''salary'') True None None =
     Inr ([[Num 39, Num 0, Num 1, Num 0, Num 1],
           [Num 50, Num 1, Num 0, Num 1, Num 0],
           [Num 38, Num 1, Num 0, Num 0, Num 1]], Array [0, 1, 0],
          Some [[Str ''Private'', Str ''State-gov''], [Str ''F'', Str ''M'']],
          Some [Str ''<=50K'', Str ''>50K'']) \<and>
   list_all
     (\<lambda>r. length r =
        length (filter (\<lambda>c. c \<notin> set (label_names (Some ''salary'') @ [''workclass'', ''sex'']))
                  (columns census_table))
          + sum_list (map length [[Str ''Private'', Str ''State-gov''], [Str ''F'', Str ''M'']]))
     [[Num 39, Num 0, Num 1, Num 0, Num 1],
      [Num 50, Num 1, Num 0, Num 1, Num 0],
      [Num 38, Num 1, Num 0, Num 0, Num 1]]"
proof -
  have p1: "rows census_table \<noteq> []" by (simp add: census_table_def)
  have p2: "[''workclass'', ''sex''] \<noteq> []" by simp
  have p3: "''salary'' \<in> set (columns census_table)" by (simp add: census_table_def)
  have p4: "set [''workclass'', ''sex''] \<subseteq> set (columns census_table) - {''salary''}"
    by (simp add: census_table_def)
  have u1: "uniform (column census_table ''salary'')" by code_simp
  have u2: "uniform (column census_table ''workclass'')" by code_simp
  have u3: "uniform (column census_table ''sex'')" by code_simp
  from training_layout [OF census_table_wf, of "[''workclass'', ''sex'']" "Some ''salary''"
      None None, THEN conjunct2, rule_format, OF census_training]
  obtain cats where
    cats: "Some [[Str ''Private'', Str ''State-gov''], [Str ''F'', Str ''M'']] = Some cats"
    and width: "\<forall>r\<in>set [[Num 39, Num 0, Num 1, Num 0, Num 1],
              [Num 50, Num 1, Num 0, Num 1, Num 0],
              [Num 38, Num 1, Num 0, Num 0, Num 1]].
      length r =
        length (filter (\<lambda>c. c \<notin> set (label_names (Some ''salary'') @ [''workclass'', ''sex'']))
                  (columns census_table))
          + sum_list (map length cats)"
    by (elim exE conjE)
  from cats have "cats = [[Str ''Private'', Str ''State-gov''], [Str ''F'', Str ''M'']]"
    by simp
  with width have "list_all
     (\<lambda>r. length r =
        length (filter (\<lambda>c. c \<notin> set (label_names (Some ''salary'') @ [''workclass'', ''sex'']))
                  (columns census_table))
          + sum_list (map length [[Str ''Private'', Str ''State-gov''], [Str ''F'', Str ''M'']]))
     [[Num 39, Num 0, Num 1, Num 0, Num 1],
      [Num 50, Num 1, Num 0, Num 1, Num 0],
      [Num 38, Num 1, Num 0, Num 0, Num 1]]"
    unfolding list_all_iff by simp
  with p1 p2 p3 p4 u1 u2 u3 census_table_wf census_training show ?thesis
    by (intro conjI)
qed

section \<open>Training does not read the state passed in\<close>

text \<open>
  C7. A training call gives the same result whatever encoder and binarizer are passed
  in. It returns exactly when the table has rows, the label column and at least one
  categorical column, each holding values of one kind, and the state it then returns is
  the one freshly fitted on the categorical columns and on the label column of the table.
\<close>

theorem training_ignores_state:
  "process_data X cf label True encoder lb = process_data X cf label True encoder' lb' \<and>
   (wf_table X \<longrightarrow>
     ((\<exists>M y e b. process_data X cf label True encoder lb = Inr (M, y, e, b)) \<longleftrightarrow>
        rows X \<noteq> [] \<and> cf \<noteq> [] \<and>
        (\<exists>l. label = Some l \<and> l \<in> set (columns X) \<and> set cf \<subseteq> set (columns X) - {l} \<and>
             uniform (column X l)) \<and>
        (\<forall>n\<in>set cf. uniform (column X n))) \<and>
     (\<forall>M y e b. process_data X cf label True encoder lb = Inr (M, y, e, b) \<longrightarrow>
        (\<exists>cats classes n. label = Some n \<and>
           ohe_fit (categorical_values X cf) = Inr cats \<and> e = Some cats \<and>
           lb_fit (column X n) = Inr classes \<and> b = Some classes)))"
proof (intro conjI impI allI)
  show "process_data X cf label True encoder lb = process_data X cf label True encoder' lb'"
    unfolding process_data_def
    by (simp only: fit_or_transform_training [of encoder lb]
        fit_or_transform_training [of encoder' lb'])
next
  assume wf: "wf_table X"
  show "(\<exists>M y e b. process_data X cf label True encoder lb = Inr (M, y, e, b)) \<longleftrightarrow>
        rows X \<noteq> [] \<and> cf \<noteq> [] \<and>
        (\<exists>l. label = Some l \<and> l \<in> set (columns X) \<and> set cf \<subseteq> set (columns X) - {l} \<and>
             uniform (column X l)) \<and>
        (\<forall>n\<in>set cf. uniform (column X n))"
    by (rule training_returns[OF wf])
next
  fix M y e b
  assume wf: "wf_table X" and ok: "process_data X cf label True encoder lb = Inr (M, y, e, b)"
  from training_result[OF wf ok]
  show "\<exists>cats classes n. label = Some n \<and>
           ohe_fit (categorical_values X cf) = Inr cats \<and> e = Some cats \<and>
           lb_fit (column X n) = Inr classes \<and> b = Some classes"
    by blast
qed

theorem training_ignores_state_witness:
  "wf_table census_table \<and>
   process_data census_table [''workclass'', ''sex''] (Some ''salary'') True
       (Some [[Str ''x'']]) (Some [Num 3])
     = Inr ([[Num 39, Num 0, Num 1, Num 0, Num 1],
             [Num 50, Num 1, Num 0, Num 1, Num 0],
             [Num 38, Num 1, Num 0, Num 0, Num 1]], Array [0, 1, 0],
            Some [[Str ''Private'', Str ''State-gov''], [Str ''F'', Str ''M'']],
            Some [Str ''<=50K'', Str ''>50K'']) \<and>
   ohe_fit (categorical_values census_table [''workclass'', ''sex''])
     = Inr [[Str ''Private'', Str ''State-gov''], [Str ''F'', Str ''M'']] \<and>
   lb_fit (column census_table ''salary'') = Inr [Str ''<=50K'', Str ''>50K'']"
proof -
  from training_ignores_state [of census_table "[''workclass'', ''sex'']" "Some ''salary''"
      "Some [[Str ''x'']]" "Some [Num 3]" None None] census_training
  have run: "process_data census_table [''workclass'', ''sex''] (Some ''salary'') True
       (Some [[Str ''x'']]) (Some [Num 3])
     = Inr ([[Num 39, Num 0, Num 1, Num 0, Num 1],
             [Num 50, Num 1, Num 0, Num 1, Num 0],
             [Num 38, Num 1, Num 0, Num 0, Num 1]], Array [0, 1, 0],
            Some [[Str ''Private'', Str ''State-gov''], [Str ''F'', Str ''M'']],
            Some [Str ''<=50K'', Str ''>50K''])"
    by (simp only: conjunct1)
  from training_ignores_state [of census_table "[''workclass'', ''sex'']" "Some ''salary''"
      "Some [[Str ''x'']]" "Some [Num 3]" None None, THEN conjunct2, rule_format,
      OF census_table_wf, THEN conjunct2, rule_format, OF run]
  obtain cats classes n where n: "Some ''salary'' = Some n"
    and fit: "ohe_fit (categorical_values census_table [''workclass'', ''sex'']) = Inr cats"
    and cats: "Some [[Str ''Private'', Str ''State-gov''], [Str ''F'', Str ''M'']] = Some cats"
    and lb: "lb_fit (column census_table n) = Inr classes"
    and classes: "Some [Str ''<=50K'', Str ''>50K''] = Some classes"
    by (elim exE conjE)
  from n cats classes have "n = ''salary''"
    and "cats = [[Str ''Private'', Str ''State-gov''], [Str ''F'', Str ''M'']]"
    and "classes = [Str ''<=50K'', Str ''>50K'']"
    by simp_all
  with fit lb run census_table_wf show ?thesis
    by (intro conjI) (simp_all only: simp_thms)
qed

section \<open>Calls without a label\<close>

text \<open>
  C4 as stated fails: with the default empty list of categorical features an inference
  call without a label raises ValueError, the encoder being handed an array without
  features.
\<close>

theorem empty_features_counterexample:
  "process_data example_table [] None False (Some [[Str ''F'', Str ''M'']]) None
     = Inl ValueError"
  by code_simp

text \<open>
  C4, as the code has it. An inference call without a label, with an encoder, never
  raises in the label step and applies no label transform: it returns the feature matrix,
  the empty array as label output and the encoder and the binarizer as passed in,
  whatever the binarizer is, unless the feature step raises. That is KeyError when a
  categorical feature is not a column, ValueError when the table has no rows, no
  categorical feature is given or the encoder was fitted on another number of features,
  and TypeError when all categorical cells are integers and the encoder was fitted on
  strings.
\<close>

theorem inference_without_label:
  assumes "wf_table X"
  shows "process_data X cf None False (Some cats) lb =
     (if \<not> set cf \<subseteq> set (columns X) then Inl KeyError
      else if rows X = [] \<or> cf = [] \<or> length cf \<noteq> length cats then Inl ValueError
      else if numeric_array (categorical_values X cf) \<and> object_categories cats
      then Inl TypeError
      else Inr (feature_matrix X cf None cats, Array [], Some cats, lb))"
  by (simp add: inference_eq[OF assms] label_names_def raw_labels_def transform_labels_Array)

theorem inference_without_label_witness:
  "wf_table example_table \<and>
   set [''sex''] \<subseteq> set (columns example_table) \<and> rows example_table \<noteq> [] \<and>
   \<not> numeric_array (categorical_values example_table [''sex'']) \<and>
   process_data example_table [''sex''] None False (Some [[Str ''F'', Str ''M'']])
       (Some [Str ''<=50K'', Str ''>50K''])
     = Inr ([[Num 25, Str ''<=50K'', Num 0, Num 1], [Num 40, Str ''>50K'', Num 1, Num 0]],
            Array [], Some [[Str ''F'', Str ''M'']], Some [Str ''<=50K'', Str ''>50K''])"
proof -
  have 1: "set [''sex''] \<subseteq> set (columns example_table)" by (simp add: example_table_def)
  have 2: "rows example_table \<noteq> []" by (simp add: example_table_def)
  have 3: "\<not> numeric_array (categorical_values example_table [''sex''])" by code_simp
  have 4: "feature_matrix example_table [''sex''] None [[Str ''F'', Str ''M'']]
     = [[Num 25, Str ''<=50K'', Num 0, Num 1], [Num 40, Str ''>50K'', Num 1, Num 0]]"
    by code_simp
  have "process_data example_table [''sex''] None False (Some [[Str ''F'', Str ''M'']])
       (Some [Str ''<=50K'', Str ''>50K''])
     = Inr ([[Num 25, Str ''<=50K'', Num 0, Num 1], [Num 40, Str ''>50K'', Num 1, Num 0]],
            Array [], Some [[Str ''F'', Str ''M'']], Some [Str ''<=50K'', Str ''>50K''])"
    unfolding inference_without_label [OF example_table_wf] using 1 2 3 by (simp add: 4)
  with example_table_wf 1 2 3 show ?thesis by (intro conjI)
qed

lemma training_without_label:
  "\<exists>e. process_data X cf None True encoder lb = Inl e"
  by (auto simp: process_data_def split_label_def fit_or_transform_def
      split: sum.splits prod.splits)

text \<open>
  C5. The docstring promises an empty array for \<open>y\<close> whenever the label is None. In
  training mode the call raises instead: line 73 reads \<^verbatim>\<open>y.values\<close> of the empty
  numpy array outside any handler. On the example table the error is AttributeError.
\<close>

theorem training_without_label_raises:
  "process_data example_table [''sex''] None True None None = Inl AttributeError"
  by code_simp

section \<open>Inference without fitted state\<close>






section \<open>Row counts\<close>

lemma concatenate_length: "concatenate A B = Inr M \<Longrightarrow> length M = length A"
  by (auto simp: concatenate_def Let_def split: if_splits)

lemma process_data_length:
  assumes "wf_table X" and "process_data X cf label training encoder lb = Inr (M, y, e, l)"
  shows "length M = length (rows X)"
proof -
  from assms(2) obtain B where "concatenate (continuous_values X (label_names label @ cf)) B = Inr M"
    unfolding process_data_eq[OF assms(1)] by (auto split: if_splits sum.splits)
  from concatenate_length[OF this] show ?thesis by simp
qed

lemma process_data_labels:
  assumes "wf_table X" and "process_data X cf label training encoder lb = Inr (M, y, e, l)"
  shows "(training \<and> (\<exists>n classes Y. label = Some n \<and>
             lb_fit_transform (column X n) = Inr (classes, Y) \<and> y = ravel Y)) \<or>
         (\<not> training \<and> transform_labels lb (raw_labels X label) = Inr y)"
proof -
  from assms(2) obtain B where
    fit: "fit_or_transform training encoder lb (categorical_values X cf) (raw_labels X label)
          = Inr (B, y, e, l)"
    unfolding process_data_eq[OF assms(1)] by (auto split: if_splits sum.splits)
  show ?thesis
  proof (cases training)
    case True
    with fit obtain v classes Y where "series_values (raw_labels X label) = Inr v"
      and "lb_fit_transform v = Inr (classes, Y)" and "y = ravel Y"
      by (auto simp: fit_or_transform_def split: sum.splits)
    then show ?thesis using True by (auto simp: series_values_raw_labels)
  next
    case False
    with fit show ?thesis
      by (auto simp: fit_or_transform_def split: sum.splits option.splits)
  qed
qed

text \<open>
  C2 as stated fails: an inference call without a label returns the empty array for a
  table of two rows.
\<close>

theorem label_rows_counterexample:
  "process_data example_table [''sex''] None False (Some [[Str ''F'', Str ''M'']]) None
     = Inr ([[Num 25, Str ''<=50K'', Num 0, Num 1], [Num 40, Str ''>50K'', Num 1, Num 0]],
            Array [], Some [[Str ''F'', Str ''M'']], None) \<and>
   labels_len (Array []) \<noteq> length (rows example_table)"
  by code_simp

text \<open>
  A label column with three values is binarized into three columns, which
  \<^verbatim>\<open>ravel\<close> flattens into three entries per row.
\<close>

lemma three_class_training:
  "process_data three_class_table [''sex''] (Some ''grade'') True None None
     = Inr ([[Num 0, Num 1], [Num 1, Num 0], [Num 1, Num 0]],
            Array [1, 0, 0, 0, 1, 0, 0, 0, 1], Some [[Str ''F'', Str ''M'']],
            Some [Str ''a'', Str ''b'', Str ''c''])"
  by code_simp

text \<open>
  C2, as the code has it. A call that returns gives a matrix with one row per row of the
  table. Without a label the label output is empty. With a label column it has one entry
  per row of the table when the labels are left raw (inference without a binarizer) or
  binarized into a single column: the label column holds at most two distinct values
  and, at inference, at most two classes were fitted.
\<close>

theorem row_counts:
  assumes "wf_table X" and "process_data X cf label training encoder lb = Inr (M, y, e, l)"
  shows "length M = length (rows X) \<and>
         (label = None \<longrightarrow> labels_len y = 0) \<and>
         (\<forall>n. label = Some n \<and>
               ((\<not> training \<and> lb = None) \<or>
                (length (remdups (column X n)) \<le> 2 \<and>
                 (training \<or> (\<exists>classes. lb = Some classes \<and> length classes \<le> 2))))
            \<longrightarrow> labels_len y = length (rows X))"
proof (intro conjI impI allI)
  show "length M = length (rows X)" by (rule process_data_length[OF assms])
next
  assume "label = None"
  with process_data_labels[OF assms] show "labels_len y = 0"
    by (auto simp: raw_labels_def transform_labels_Array)
next
  fix n
  assume h: "label = Some n \<and>
               ((\<not> training \<and> lb = None) \<or>
                (length (remdups (column X n)) \<le> 2 \<and>
                 (training \<or> (\<exists>classes. lb = Some classes \<and> length classes \<le> 2))))"
  then have n: "label = Some n" by simp
  show "labels_len y = length (rows X)"
  proof (cases training)
    case True
    with h have d: "length (remdups (column X n)) \<le> 2" by auto
    from process_data_labels[OF assms] True n obtain classes Y where
      "lb_fit_transform (column X n) = Inr (classes, Y)" and "y = ravel Y" by auto
    with lb_fit_transform_length[OF this(1) d] show ?thesis by simp
  next
    case False
    with process_data_labels[OF assms] n
    have t: "transform_labels lb (Series (column X n)) = Inr y" by (simp add: raw_labels_def)
    show ?thesis
    proof (cases lb)
      case None
      with t show ?thesis by (auto simp: transform_labels_None)
    next
      case (Some classes)
      with h False have d: "length (remdups (column X n)) \<le> 2" and c: "length classes \<le> 2"
        by auto
      from t Some obtain Y where Y: "label_binarize (column X n) classes = Inr Y"
        and "y = ravel Y"
        by (auto simp: transform_labels_Series split: sum.splits)
      with label_binarize_length[OF Y d c] show ?thesis by simp
    qed
  qed
qed

theorem row_counts_witness:
  "wf_table example_table \<and>
   process_data example_table [''sex''] (Some ''salary'') True None None =
     Inr ([[Num 25, Num 0, Num 1], [Num 40, Num 1, Num 0]], Array [0, 1],
          Some [[Str ''F'', Str ''M'']], Some [Str ''<=50K'', Str ''>50K'']) \<and>
   length [[Num 25, Num 0, Num 1], [Num 40, Num 1, Num 0]] = length (rows example_table) \<and>
   length (remdups (column example_table ''salary'')) \<le> 2 \<and>
   labels_len (Array [0, 1]) = length (rows example_table)"
proof -
  have d: "length (remdups (column example_table ''salary'')) \<le> 2" by code_simp
  show ?thesis
    using row_counts [OF example_table_wf example_training] example_table_wf
      example_training d
    by simp
qed

section \<open>Unknown categories at inference\<close>

lemma block_of_concat:
  "i < length xss \<Longrightarrow>
   take (length (xss ! i)) (drop (sum_list (map length (take i xss))) (concat xss)) = xss ! i"
proof (induction xss arbitrary: i)
  case Nil
  then show ?case by simp
next
  case (Cons xs xss)
  show ?case
  proof (cases i)
    case 0
    then show ?thesis by simp
  next
    case (Suc k)
    with Cons.prems have "k < length xss" by simp
    from Cons.IH[OF this] show ?thesis using Suc by simp
  qed
qed

lemma one_hot_unknown: "v \<notin> set cs \<Longrightarrow> one_hot cs v = replicate (length cs) (Num 0)"
  by (induction cs) (auto simp: one_hot_def)

lemma length_one_hot [simp]: "length (one_hot cs v) = length cs"
  by (simp add: one_hot_def)

lemma block_lengths:
  "length cats = length cf \<Longrightarrow>
   map length (map (\<lambda>(cs, n). one_hot cs (f n)) (zip cats cf)) = map length cats"
  by (induction cats cf rule: list_induct2) auto

lemma transform_labels_returns:
  assumes "rows X \<noteq> []" and "binarizer_fits lb X label"
  shows "\<exists>y. transform_labels lb (raw_labels X label) = Inr y"
proof (cases label)
  case None
  then show ?thesis by (simp add: raw_labels_def transform_labels_Array)
next
  case n: (Some n)
  show ?thesis
  proof (cases lb)
    case None
    then show ?thesis by (simp add: transform_labels_None)
  next
    case (Some classes)
    with n assms(2) have "classes \<noteq> []" and "uniform (column X n)"
      and "\<not> (list_all is_num (column X n) \<and> list_ex is_str classes)"
      by (auto simp: binarizer_fits_def)
    moreover from assms(1) have "column X n \<noteq> []" by (simp add: column_def)
    ultimately obtain Y where "label_binarize (column X n) classes = Inr Y"
      using label_binarize_returns[of "column X n" classes] by blast
    then show ?thesis using n Some by (simp add: raw_labels_def transform_labels_Series)
  qed
qed

text \<open>
  C3 as stated fails: a number in a categorical column, absent from the strings the
  encoder was fitted on, makes \<^verbatim>\<open>encoder.transform\<close> at line 75 raise TypeError.
\<close>

theorem numeric_category_counterexample:
  "cell_in numeric_sex_table [Num 30, Num 7] ''sex'' \<notin> set [Str ''F'', Str ''M''] \<and>
   process_data numeric_sex_table [''sex''] None False (Some [[Str ''F'', Str ''M'']]) None
     = Inl TypeError"
  by code_simp

text \<open>
  C3, as the code has it. Take an inference call on a table that has rows and the columns
  asked for, with at least one categorical feature, an encoder that has one category list
  per categorical feature, and a binarizer that is None or fits the label column; and let
  it not be so that all categorical cells are integers while the encoder was fitted on
  strings. Then the call returns, and wherever a row's value in a categorical column is
  not among the fitted categories of that feature, the indicator block of the feature in
  that row of the matrix is all zero. The block of feature \<open>i\<close> starts after the
  continuous cells and the blocks of the features before it.
\<close>

theorem unknown_category_zero_block:
  assumes wf: "wf_table X" and rows: "rows X \<noteq> []" and cf: "cf \<noteq> []"
    and label: "set (label_names label) \<subseteq> set (columns X)"
    and cols: "set cf \<subseteq> set (columns X) - set (label_names label)"
    and len: "length cats = length cf"
    and dtype: "\<not> (numeric_array (categorical_values X cf) \<and> object_categories cats)"
    and lb: "binarizer_fits lb X label"
  shows "\<exists>y. process_data X cf label False (Some cats) lb
               = Inr (feature_matrix X cf label cats, y, Some cats, lb) \<and>
          (\<forall>j<length (rows X). \<forall>i<length cf.
             cell_in X (rows X ! j) (cf ! i) \<notin> set (cats ! i) \<longrightarrow>
             take (length (cats ! i))
               (drop (length (filter (\<lambda>c. c \<notin> set (label_names label @ cf)) (columns X))
                        + sum_list (map length (take i cats)))
                  (feature_matrix X cf label cats ! j))
               = replicate (length (cats ! i)) (Num 0))"
proof -
  from transform_labels_returns[OF rows lb] obtain y where
    y: "transform_labels lb (raw_labels X label) = Inr y" ..
  have run: "process_data X cf label False (Some cats) lb
               = Inr (feature_matrix X cf label cats, y, Some cats, lb)"
    using rows cf label cols len dtype y by (simp add: inference_eq[OF wf])
  have block: "take (length (cats ! i))
               (drop (length (filter (\<lambda>c. c \<notin> set (label_names label @ cf)) (columns X))
                        + sum_list (map length (take i cats)))
                  (feature_matrix X cf label cats ! j))
               = replicate (length (cats ! i)) (Num 0)"
    if j: "j < length (rows X)" and i: "i < length cf"
      and unknown: "cell_in X (rows X ! j) (cf ! i) \<notin> set (cats ! i)" for i j
  proof -
    let ?r = "rows X ! j"
    let ?ns = "label_names label @ cf"
    let ?cont = "if numeric_array (continuous_values X ?ns)
                 then map float64_cell (keep_cells ?ns (columns X) ?r)
                 else keep_cells ?ns (columns X) ?r"
    let ?blocks = "map (\<lambda>(cs, n). one_hot cs (cell_in X ?r n)) (zip cats cf)"
    have r: "?r \<in> set (rows X)" using j by simp
    have row: "feature_matrix X cf label cats ! j = ?cont @ concat ?blocks"
      using j by (simp add: feature_matrix_def)
    have c: "length ?cont = length (filter (\<lambda>c. c \<notin> set ?ns) (columns X))"
      using length_keep_cells[OF wf_rowD[OF wf r], of ?ns] by simp
    have i': "i < length ?blocks" using i len by simp
    have bi: "?blocks ! i = one_hot (cats ! i) (cell_in X ?r (cf ! i))"
      using i len by simp
    have lens: "map length (take i ?blocks) = map length (take i cats)"
      using block_lengths[OF len, of "cell_in X ?r"] by (simp add: take_map[symmetric])
    from block_of_concat[OF i'] have
      "take (length (cats ! i)) (drop (sum_list (map length (take i cats))) (concat ?blocks))
       = one_hot (cats ! i) (cell_in X ?r (cf ! i))"
      unfolding lens bi by simp
    then show ?thesis unfolding row using c by (simp add: one_hot_unknown[OF unknown])
  qed
  from run block show ?thesis by blast
qed

theorem unknown_category_zero_block_witness:
  "wf_table unseen_table \<and> rows unseen_table \<noteq> [] \<and> [''sex''] \<noteq> [] \<and>
   set (label_names None) \<subseteq> set (columns unseen_table) \<and>
   set [''sex''] \<subseteq> set (columns unseen_table) - set (label_names None) \<and>
   length [[Str ''F'', Str ''M'']] = length [''sex''] \<and>
   \<not> (numeric_array (categorical_values unseen_table [''sex'']) \<and>
      object_categories [[Str ''F'', Str ''M'']]) \<and>
   binarizer_fits None unseen_table None \<and>
   cell_in unseen_table (rows unseen_table ! 0) ([''sex''] ! 0) \<notin> set ([[Str ''F'', Str ''M'']] ! 0) \<and>
   feature_matrix unseen_table [''sex''] None [[Str ''F'', Str ''M'']]
     = [[Num 30, Num 0, Num 0]] \<and>
   (\<exists>y. process_data unseen_table [''sex''] None False (Some [[Str ''F'', Str ''M'']]) None
          = Inr ([[Num 30, Num 0, Num 0]], y, Some [[Str ''F'', Str ''M'']], None)) \<and>
   take 2 (drop 1 [Num 30, Num 0, Num 0]) = replicate 2 (Num 0)"
proof -
  have 1: "wf_table unseen_table" by (simp add: wf_table_def unseen_table_def)
  have 2: "rows unseen_table \<noteq> []" by (simp add: unseen_table_def)
  have 3: "[''sex''] \<noteq> []" by simp
  have 4: "set (label_names None) \<subseteq> set (columns unseen_table)"
    by (simp add: label_names_def)
  have 5: "set [''sex''] \<subseteq> set (columns unseen_table) - set (label_names None)"
    by (simp add: label_names_def unseen_table_def)
  have 6: "length [[Str ''F'', Str ''M'']] = length [''sex'']" by simp
  have 7: "\<not> (numeric_array (categorical_values unseen_table [''sex'']) \<and>
      object_categories [[Str ''F'', Str ''M'']])" by code_simp
  have 8: "binarizer_fits None unseen_table None" by (simp add: binarizer_fits_def)
  have 9: "cell_in unseen_table (rows unseen_table ! 0) ([''sex''] ! 0)
             \<notin> set ([[Str ''F'', Str ''M'']] ! 0)"
    by (simp add: cell_in_def unseen_table_def)
  have 10: "feature_matrix unseen_table [''sex''] None [[Str ''F'', Str ''M'']]
              = [[Num 30, Num 0, Num 0]]"
    by code_simp
  show ?thesis
    using unknown_category_zero_block [OF 1 2 3 4 5 6 7 8] 1 2 4 5 7 8 9
    by (simp add: 10 numeral_2_eq_2)
qed

section \<open>The slice report\<close>

text \<open>
  \<^verbatim>\<open>unique\<close> gives the values in the order of their first appearance.
\<close>

lemma foldl_seen:
  "foldl (\<lambda>seen x. if x \<in> set seen then seen else seen @ [x]) acc xs
     = acc @ filter (\<lambda>y. y \<notin> set acc)
               (foldl (\<lambda>seen x. if x \<in> set seen then seen else seen @ [x]) [] xs)"
proof (induction xs arbitrary: acc)
  case Nil
  then show ?case by simp
next
  case (Cons y ys)
  let ?F = "foldl (\<lambda>seen x. if x \<in> set seen then seen else seen @ [x])"
  have one: "?F [y] ys = [y] @ filter (\<lambda>z. z \<notin> set [y]) (?F [] ys)" by (rule Cons.IH)
  show ?case
  proof (cases "y \<in> set acc")
    case True
    have "filter (\<lambda>z. z \<notin> set acc) (filter (\<lambda>z. z \<noteq> y) (?F [] ys))
          = filter (\<lambda>z. z \<notin> set acc) (?F [] ys)"
      using True by (auto intro: filter_cong)
    with True show ?thesis using Cons.IH[of acc] one by simp
  next
    case False
    have "filter (\<lambda>z. z \<notin> set (acc @ [y])) (?F [] ys)
          = filter (\<lambda>z. z \<notin> set acc) (filter (\<lambda>z. z \<noteq> y) (?F [] ys))"
      by (auto intro: filter_cong)
    with False show ?thesis using Cons.IH[of "acc @ [y]"] one by simp
  qed
qed

lemma unique_first_seen: "unique xs = first_seen xs"
proof (induction xs)
  case Nil
  then show ?case by (simp add: unique_def)
next
  case (Cons x xs)
  have "unique (x # xs) = x # filter (\<lambda>y. y \<noteq> x) (unique xs)"
    using foldl_seen[of "[x]" xs] by (simp add: unique_def)
  with Cons show ?case by simp
qed

lemma set_first_seen [simp]: "set (first_seen xs) = set xs"
  by (induction xs) auto

lemma distinct_first_seen [simp]: "distinct (first_seen xs)"
  by (induction xs) auto

lemma select_rows_eq:
  "select_rows d c v =
     (if c \<in> set (columns d) then Inr (matching_rows d c v) else Inl KeyError)"
  by (simp add: select_rows_def index_of_position matching_rows_def cell_in_def)

lemma slice_line_InrD:
  assumes "slice_line m d e l cfs c v = Inr line"
  shows "\<exists>M y e' l' y_pred p r f.
           process_data (matching_rows d c v) cfs (Some ''salary'') False e l
             = Inr (M, y, e', l') \<and>
           predict m M = Inr y_pred \<and>
           compute_model_metrics m y y_pred = Inr (p, r, f) \<and>
           line = ''Feature '' @ format_value v @ '' of the Categorical '' @ c
                    @ '': Precision:'' @ format_metric m p
                    @ '' | Recall:'' @ format_metric m r
                    @ '' | Fbeta:'' @ format_metric m f @ [CHR 0x0A]"
  using assms
  by (auto simp: slice_line_def select_rows_eq format_line_def
      split: sum.splits prod.splits if_splits)

lemma slice_values_Inr:
  "slice_values m d e l cfs c vs f = (Inr u, f') \<Longrightarrow>
   \<exists>lines. f' = f @ concat lines \<and>
     list_all2 (\<lambda>v line. slice_line m d e l cfs c v = Inr line) vs lines"
proof (induction vs arbitrary: f)
  case Nil
  then show ?case by simp
next
  case (Cons v vs)
  from Cons.prems obtain line where line: "slice_line m d e l cfs c v = Inr line"
    and rest: "slice_values m d e l cfs c vs (f @ line) = (Inr u, f')"
    by (auto simp: file_write_def split: sum.splits)
  from Cons.IH[OF rest] obtain lines where "f' = (f @ line) @ concat lines"
    and "list_all2 (\<lambda>v line. slice_line m d e l cfs c v = Inr line) vs lines" by blast
  with line have "f' = f @ concat (line # lines) \<and>
     list_all2 (\<lambda>v line. slice_line m d e l cfs c v = Inr line) (v # vs) (line # lines)"
    by simp
  then show ?case by blast
qed

lemma slice_pairs_Cons:
  "slice_pairs d (c # cs) = map (Pair c) (first_seen (column d c)) @ slice_pairs d cs"
  by (simp add: slice_pairs_def)

lemma slice_features_Inr:
  "slice_features m d e l cfs cs f = (Inr u, f') \<Longrightarrow>
   \<exists>lines. f' = f @ concat lines \<and>
     list_all2 (\<lambda>p line. slice_line m d e l cfs (fst p) (snd p) = Inr line)
       (slice_pairs d cs) lines"
proof (induction cs arbitrary: f)
  case Nil
  then show ?case by (simp add: slice_pairs_def)
next
  case (Cons c cs)
  from Cons.prems obtain f1 u1 where
    vals: "slice_values m d e l cfs c (first_seen (column d c)) f = (Inr u1, f1)"
    and rest: "slice_features m d e l cfs cs f1 = (Inr u, f')"
    by (auto simp: getitem_eq unique_first_seen split: sum.splits if_splits prod.splits)
  from slice_values_Inr[OF vals] obtain lines1 where f1: "f1 = f @ concat lines1"
    and l1: "list_all2 (\<lambda>v line. slice_line m d e l cfs c v = Inr line)
               (first_seen (column d c)) lines1" by blast
  from Cons.IH[OF rest] obtain lines2 where f': "f' = f1 @ concat lines2"
    and l2: "list_all2 (\<lambda>p line. slice_line m d e l cfs (fst p) (snd p) = Inr line)
               (slice_pairs d cs) lines2" by blast
  from l1 have "list_all2 (\<lambda>p line. slice_line m d e l cfs (fst p) (snd p) = Inr line)
               (map (Pair c) (first_seen (column d c))) lines1"
    by (simp add: list_all2_map1)
  from this l2 have "list_all2 (\<lambda>p line. slice_line m d e l cfs (fst p) (snd p) = Inr line)
               (slice_pairs d (c # cs)) (lines1 @ lines2)"
    unfolding slice_pairs_Cons by (rule list_all2_appendI)
  moreover have "f' = f @ concat (lines1 @ lines2)" using f1 f' by simp
  ultimately show ?case by blast
qed

lemma set_slice_pairs:
  "set (slice_pairs d cs) = {(c, v). c \<in> set cs \<and> v \<in> set (column d c)}"
  by (auto simp: slice_pairs_def)

lemma distinct_slice_pairs: "distinct cs \<Longrightarrow> distinct (slice_pairs d cs)"
proof (induction cs)
  case Nil
  then show ?case by (simp add: slice_pairs_def)
next
  case (Cons c cs)
  then show ?case
    by (auto simp: slice_pairs_Cons distinct_map inj_on_def set_slice_pairs)
qed

lemma census_report:
  "slide_performance example_model census_table
       (Some [[Str ''F'', Str ''M''], [Num 38, Num 39, Num 50]])
       (Some [Str ''<=50K'', Str ''>50K'']) [''sex'', ''age''] ''old text''
     = (Inr (),
        ''Feature M of the Categorical sex: Precision:2 | Recall:2 | Fbeta:4'' @ [CHR 0x0A]
        @ ''Feature F of the Categorical sex: Precision:1 | Recall:1 | Fbeta:2'' @ [CHR 0x0A]
        @ ''Feature 39 of the Categorical age: Precision:1 | Recall:1 | Fbeta:2'' @ [CHR 0x0A]
        @ ''Feature 50 of the Categorical age: Precision:1 | Recall:1 | Fbeta:2'' @ [CHR 0x0A]
        @ ''Feature 38 of the Categorical age: Precision:1 | Recall:1 | Fbeta:2'' @ [CHR 0x0A])"
  by code_simp

lemma census_pairs:
  "slice_pairs census_table [''sex'', ''age'']
     = [(''sex'', Str ''M''), (''sex'', Str ''F''),
        (''age'', Num 39), (''age'', Num 50), (''age'', Num 38)]"
  by code_simp

text \<open>
  C8. The text the report file holds after a call does not depend on what it held
  before. After a call that returns, the file is the concatenation of one line per pair
  of a categorical feature and a value of its column, the features in the order of the
  list and the values of each column in the order of their first appearance. The line of
  a pair is the text \<^verbatim>\<open>Feature <value> of the Categorical <column>: Precision:<p> |
  Recall:<r> | Fbeta:<f>\<close> and a line break, where the three metrics are those the
  metrics collaborator gives for the labels and the model's predictions that the
  inference call of process_data yields on the rows holding the value. The pairs are all
  pairs of a listed feature and a value of its column, each once when the listed
  features are distinct.
\<close>

theorem slice_report:
  "snd (slide_performance m d e l cfs old) = snd (slide_performance m d e l cfs old') \<and>
   (\<forall>out. slide_performance m d e l cfs old = (Inr (), out) \<longrightarrow>
      (\<exists>lines. out = concat lines \<and> length lines = length (slice_pairs d cfs) \<and>
         (\<forall>k<length lines. \<exists>M y e' l' y_pred p r f.
            process_data (matching_rows d (fst (slice_pairs d cfs ! k))
                            (snd (slice_pairs d cfs ! k)))
                cfs (Some ''salary'') False e l = Inr (M, y, e', l') \<and>
            predict m M = Inr y_pred \<and>
            compute_model_metrics m y y_pred = Inr (p, r, f) \<and>
            lines ! k =
              ''Feature '' @ format_value (snd (slice_pairs d cfs ! k))
                @ '' of the Categorical '' @ fst (slice_pairs d cfs ! k)
                @ '': Precision:'' @ format_metric m p
                @ '' | Recall:'' @ format_metric m r
                @ '' | Fbeta:'' @ format_metric m f @ [CHR 0x0A]))) \<and>
   set (slice_pairs d cfs) = {(c, v). c \<in> set cfs \<and> v \<in> set (column d c)} \<and>
   (distinct cfs \<longrightarrow> distinct (slice_pairs d cfs))"
proof (intro conjI allI impI)
  show "snd (slide_performance m d e l cfs old) = snd (slide_performance m d e l cfs old')"
    by (simp add: slide_performance_def open_file_def)
next
  fix out
  assume "slide_performance m d e l cfs old = (Inr (), out)"
  then have "slice_features m d e l cfs cfs [] = (Inr (), out)"
    by (simp add: slide_performance_def open_file_def)
  from slice_features_Inr[OF this] obtain lines where out: "out = concat lines"
    and all: "list_all2 (\<lambda>p line. slice_line m d e l cfs (fst p) (snd p) = Inr line)
               (slice_pairs d cfs) lines" by auto
  from all have len: "length lines = length (slice_pairs d cfs)"
    by (simp add: list_all2_lengthD)
  have "\<exists>M y e' l' y_pred p r f.
            process_data (matching_rows d (fst (slice_pairs d cfs ! k))
                            (snd (slice_pairs d cfs ! k)))
                cfs (Some ''salary'') False e l = Inr (M, y, e', l') \<and>
            predict m M = Inr y_pred \<and>
            compute_model_metrics m y y_pred = Inr (p, r, f) \<and>
            lines ! k =
              ''Feature '' @ format_value (snd (slice_pairs d cfs ! k))
                @ '' of the Categorical '' @ fst (slice_pairs d cfs ! k)
                @ '': Precision:'' @ format_metric m p
                @ '' | Recall:'' @ format_metric m r
                @ '' | Fbeta:'' @ format_metric m f @ [CHR 0x0A]"
    if "k < length lines" for k
    using list_all2_nthD2[OF all that] by (rule slice_line_InrD)
  with out len show "\<exists>lines. out = concat lines \<and>
      length lines = length (slice_pairs d cfs) \<and>
      (\<forall>k<length lines. \<exists>M y e' l' y_pred p r f.
            process_data (matching_rows d (fst (slice_pairs d cfs ! k))
                            (snd (slice_pairs d cfs ! k)))
                cfs (Some ''salary'') False e l = Inr (M, y, e', l') \<and>
            predict m M = Inr y_pred \<and>
            compute_model_metrics m y y_pred = Inr (p, r, f) \<and>
            lines ! k =
              ''Feature '' @ format_value (snd (slice_pairs d cfs ! k))
                @ '' of the Categorical '' @ fst (slice_pairs d cfs ! k)
                @ '': Precision:'' @ format_metric m p
                @ '' | Recall:'' @ format_metric m r
                @ '' | Fbeta:'' @ format_metric m f @ [CHR 0x0A])"
    by blast
next
  show "set (slice_pairs d cfs) = {(c, v). c \<in> set cfs \<and> v \<in> set (column d c)}"
    by (rule set_slice_pairs)
next
  assume "distinct cfs"
  then show "distinct (slice_pairs d cfs)" by (rule distinct_slice_pairs)
qed

theorem slice_report_witness:
  "slide_performance example_model census_table
       (Some [[Str ''F'', Str ''M''], [Num 38, Num 39, Num 50]])
       (Some [Str ''<=50K'', Str ''>50K'']) [''sex'', ''age''] ''old text''
     = (Inr (),
        ''Feature M of the Categorical sex: Precision:2 | Recall:2 | Fbeta:4'' @ [CHR 0x0A]
        @ ''Feature F of the Categorical sex: Precision:1 | Recall:1 | Fbeta:2'' @ [CHR 0x0A]
        @ ''Feature 39 of the Categorical age: Precision:1 | Recall:1 | Fbeta:2'' @ [CHR 0x0A]
        @ ''Feature 50 of the Categorical age: Precision:1 | Recall:1 | Fbeta:2'' @ [CHR 0x0A]
        @ ''Feature 38 of the Categorical age: Precision:1 | Recall:1 | Fbeta:2'' @ [CHR 0x0A]) \<and>
   slice_pairs census_table [''sex'', ''age'']
     = [(''sex'', Str ''M''), (''sex'', Str ''F''),
        (''age'', Num 39), (''age'', Num 50), (''age'', Num 38)] \<and>
   distinct [''sex'', ''age''] \<and>
   distinct (slice_pairs census_table [''sex'', ''age'']) \<and>
   snd (slide_performance example_model census_table
          (Some [[Str ''F'', Str ''M''], [Num 38, Num 39, Num 50]])
          (Some [Str ''<=50K'', Str ''>50K'']) [''sex'', ''age''] [])
     = ''Feature M of the Categorical sex: Precision:2 | Recall:2 | Fbeta:4'' @ [CHR 0x0A]
        @ ''Feature F of the Categorical sex: Precision:1 | Recall:1 | Fbeta:2'' @ [CHR 0x0A]
        @ ''Feature 39 of the Categorical age: Precision:1 | Recall:1 | Fbeta:2'' @ [CHR 0x0A]
        @ ''Feature 50 of the Categorical age: Precision:1 | Recall:1 | Fbeta:2'' @ [CHR 0x0A]
        @ ''Feature 38 of the Categorical age: Precision:1 | Recall:1 | Fbeta:2'' @ [CHR 0x0A]"
proof -
  note inst = slice_report [of example_model census_table
      "Some [[Str ''F'', Str ''M''], [Num 38, Num 39, Num 50]]"
      "Some [Str ''<=50K'', Str ''>50K'']" "[''sex'', ''age'']" "''old text''" "[]"]
  have d: "distinct [''sex'', ''age'']" by simp
  from inst d have dp: "distinct (slice_pairs census_table [''sex'', ''age''])"
    by (elim conjE) (erule mp)
  from inst have same: "snd (slide_performance example_model census_table
          (Some [[Str ''F'', Str ''M''], [Num 38, Num 39, Num 50]])
          (Some [Str ''<=50K'', Str ''>50K'']) [''sex'', ''age''] ''old text'')
     = snd (slide_performance example_model census_table
          (Some [[Str ''F'', Str ''M''], [Num 38, Num 39, Num 50]])
          (Some [Str ''<=50K'', Str ''>50K'']) [''sex'', ''age''] [])"
    by (rule conjunct1)
  have empty: "snd (slide_performance example_model census_table
          (Some [[Str ''F'', Str ''M''], [Num 38, Num 39, Num 50]])
          (Some [Str ''<=50K'', Str ''>50K'']) [''sex'', ''age''] [])
     = ''Feature M of the Categorical sex: Precision:2 | Recall:2 | Fbeta:4'' @ [CHR 0x0A]
        @ ''Feature F of the Categorical sex: Precision:1 | Recall:1 | Fbeta:2'' @ [CHR 0x0A]
        @ ''Feature 39 of the Categorical age: Precision:1 | Recall:1 | Fbeta:2'' @ [CHR 0x0A]
        @ ''Feature 50 of the Categorical age: Precision:1 | Recall:1 | Fbeta:2'' @ [CHR 0x0A]
        @ ''Feature 38 of the Categorical age: Precision:1 | Recall:1 | Fbeta:2'' @ [CHR 0x0A]"
    unfolding same[symmetric] census_report by simp
  from census_report census_pairs d dp empty show ?thesis by (intro conjI)
qed

section \<open>The caller's table\<close>

lemma store_split_label_eq:
  "store_split_label h X label =
     (case split_label (h ! X) label of
        Inl e \<Rightarrow> (Inl e, h)
      | Inr (y, T) \<Rightarrow> (case label of
                         None \<Rightarrow> (Inr (y, X), h)
                       | Some l \<Rightarrow> (Inr (y, length h), h @ [T])))"
  by (auto simp: store_split_label_def split_label_def store_drop_def
      split: option.splits sum.splits)

lemma store_process_data_eq:
  "store_process_data h X cf label training encoder lb =
     (process_data (h ! X) cf label training encoder lb,
      (case split_label (h ! X) label of
         Inl e \<Rightarrow> h
       | Inr (y, T) \<Rightarrow>
           (case label of None \<Rightarrow> h | Some l \<Rightarrow> h @ [T]) @
           (case getitem_values T cf of
              Inl e \<Rightarrow> []
            | Inr A \<Rightarrow> (case drop_columns T cf of Inl e \<Rightarrow> [] | Inr T' \<Rightarrow> [T']))))"
  by (auto simp: store_process_data_def process_data_def store_split_label_eq store_drop_def
      split_label_def nth_append
      split: option.splits sum.splits prod.splits)

text \<open>
  C9. A call of process_data on a reference to a table leaves every object the store
  held before the call as it was, the caller's table among them: the call only adds the
  tables that \<^verbatim>\<open>drop\<close> builds. Its result is the one computed from the table.
\<close>

theorem input_table_unchanged:
  assumes "X < length h"
    and "store_process_data h X cf label training encoder lb = (res, h')"
  shows "take (length h) h' = h \<and> h' ! X = h ! X \<and>
         res = process_data (h ! X) cf label training encoder lb"
  using assms unfolding store_process_data_eq
  by (auto simp: nth_append split: sum.splits option.splits prod.splits)

theorem input_table_unchanged_witness:
  "(0::nat) < length [example_table] \<and>
   take (length [example_table])
     (snd (store_process_data [example_table] 0 [''sex''] (Some ''salary'') True None None))
     = [example_table] \<and>
   snd (store_process_data [example_table] 0 [''sex''] (Some ''salary'') True None None) ! 0
     = example_table \<and>
   fst (store_process_data [example_table] 0 [''sex''] (Some ''salary'') True None None)
     = Inr ([[Num 25, Num 0, Num 1], [Num 40, Num 1, Num 0]], Array [0, 1],
            Some [[Str ''F'', Str ''M'']], Some [Str ''<=50K'', Str ''>50K''])"
proof -
  have 1: "(0::nat) < length [example_table]" by simp
  have 2: "store_process_data [example_table] 0 [''sex''] (Some ''salary'') True None None
     = (fst (store_process_data [example_table] 0 [''sex''] (Some ''salary'') True None None),
        snd (store_process_data [example_table] 0 [''sex''] (Some ''salary'') True None None))"
    by simp
  show ?thesis
    using input_table_unchanged [OF 1 2] example_training by simp
qed

end
